theory Spec2Isabelle
  imports Main "HOL-Library.Sublist"
begin

section \<open>Values of the snapshot records\<close>

text \<open>
  The two scripts \<^verbatim>\<open>tools/find_diff_1.py\<close> and \<^verbatim>\<open>tools/find_diff_2.py\<close> read rows of the
  landing table into Python dicts (\<^verbatim>\<open>group.to_dict(orient="records")\<close>) and compare them.
  A row maps column names to Python values; the \<^verbatim>\<open>raw_json\<close> column holds a nested
  JSON document.  Strings are lists of 8-bit characters.  Floating point numbers (and
  with them NaN and NaT) and time zones are outside the model.
\<close>

record datetime =
  year :: nat
  month :: nat
  day :: nat
  hour :: nat
  minute :: nat
  second :: nat
  microsecond :: nat

datatype pyval =
    PNone
  | PBool bool
  | PInt int
  | PStr string
  | PTimestamp datetime nat  \<comment> \<open>\<^verbatim>\<open>pd.Timestamp\<close>: the datetime fields and the nanosecond part\<close>
  | PDatetime datetime       \<comment> \<open>\<^verbatim>\<open>datetime.datetime\<close>\<close>
  | PList "pyval list"
  | PDict "(string \<times> pyval) list"

type_synonym pydict = "(string \<times> pyval) list"

text \<open>\<^verbatim>\<open>record.get(key)\<close>: the value stored under the key, \<^verbatim>\<open>None\<close> when the key is missing.\<close>

definition dict_get :: "pydict \<Rightarrow> string \<Rightarrow> pyval" where
  "dict_get d k = (case map_of d k of None \<Rightarrow> PNone | Some v \<Rightarrow> v)"


text \<open>Truth value of a Python object, as \<^verbatim>\<open>or\<close> tests it.\<close>

fun truthy :: "pyval \<Rightarrow> bool" where
  "truthy PNone = False"
| "truthy (PBool b) = b"
| "truthy (PInt n) = (n \<noteq> 0)"
| "truthy (PStr s) = (s \<noteq> [])"
| "truthy (PTimestamp d ns) = True"
| "truthy (PDatetime d) = True"
| "truthy (PList xs) = (xs \<noteq> [])"
| "truthy (PDict kvs) = (kvs \<noteq> [])"

text \<open>\<^verbatim>\<open>a or b\<close> yields \<^verbatim>\<open>a\<close> when it is truthy and \<^verbatim>\<open>b\<close> otherwise.\<close>

definition py_or :: "pyval \<Rightarrow> pyval \<Rightarrow> pyval" where
  "py_or a b = (if truthy a then a else b)"

section \<open>String operations of the Python runtime\<close>

text \<open>\<^verbatim>\<open>str.isspace\<close> on one character, for the characters below 256.\<close>

definition py_isspace :: "char \<Rightarrow> bool" where
  "py_isspace c = ((of_char c :: nat) \<in> set [9, 10, 11, 12, 13, 28, 29, 30, 31, 32, 133, 160])"

text \<open>\<^verbatim>\<open>s.strip()\<close> removes leading and trailing whitespace.\<close>

definition py_strip :: "string \<Rightarrow> string" where
  "py_strip s = rev (dropWhile py_isspace (rev (dropWhile py_isspace s)))"

text \<open>
  \<^verbatim>\<open>s.replace(old, new)\<close> for a non-empty \<^verbatim>\<open>old\<close>: every non-overlapping occurrence,
  scanning from the left.  Both scripts call it with non-empty constants only.
\<close>

function py_replace :: "string \<Rightarrow> string \<Rightarrow> string \<Rightarrow> string" where
  "py_replace old new [] = []"
| "py_replace old new (c # cs) =
     (if old \<noteq> [] \<and> prefix old (c # cs)
      then new @ py_replace old new (drop (length old) (c # cs))
      else c # py_replace old new cs)"
  by pat_completeness auto
termination
  by (relation "measure (\<lambda>(old, new, s). length s)") auto

text \<open>\<^verbatim>\<open>sep.join(parts)\<close>.\<close>

fun py_join :: "string \<Rightarrow> string list \<Rightarrow> string" where
  "py_join sep [] = []"
| "py_join sep [p] = p"
| "py_join sep (p # q # ps) = p @ sep @ py_join sep (q # ps)"

text \<open>Decimal digits and zero padding, as \<^verbatim>\<open>"%02d"\<close>, \<^verbatim>\<open>"%04d"\<close> and \<^verbatim>\<open>"%06d"\<close> print them.\<close>

definition digit_char :: "nat \<Rightarrow> char" where
  "digit_char n = ''0123456789'' ! (n mod 10)"

fun dec_digits :: "nat \<Rightarrow> string" where
  "dec_digits n = (if n < 10 then [digit_char n] else dec_digits (n div 10) @ [digit_char n])"

declare dec_digits.simps [simp del]

definition zero_pad :: "nat \<Rightarrow> nat \<Rightarrow> string" where
  "zero_pad w n = replicate (w - length (dec_digits n)) (CHR ''0'') @ dec_digits n"

text \<open>
  \<^verbatim>\<open>datetime.isoformat()\<close> of a value without time zone: \<^verbatim>\<open>YYYY-MM-DDTHH:MM:SS\<close>, followed
  by \<^verbatim>\<open>.ffffff\<close> when the microsecond is not zero.
\<close>

definition isoformat :: "datetime \<Rightarrow> string" where
  "isoformat d =
     zero_pad 4 (year d) @ ''-'' @ zero_pad 2 (month d) @ ''-'' @ zero_pad 2 (day d) @ ''T''
     @ zero_pad 2 (hour d) @ '':'' @ zero_pad 2 (minute d) @ '':'' @ zero_pad 2 (second d)
     @ (if microsecond d \<noteq> 0 then ''.'' @ zero_pad 6 (microsecond d) else [])"

text \<open>\<^verbatim>\<open>Timestamp.to_pydatetime()\<close> keeps the datetime fields and drops the nanoseconds.\<close>

definition to_pydatetime :: "datetime \<Rightarrow> nat \<Rightarrow> datetime" where
  "to_pydatetime d ns = d"

section \<open>The timestamp resolver\<close>

text \<open>
  \<^verbatim>\<open>pick_change_dt\<close> of \<^verbatim>\<open>find_diff_2.py\<close>.  \<^verbatim>\<open>str(cand)\<close> of a value that is neither text nor
  a timestamp is the built-in rendering of the Python runtime; it is the parameter
  \<open>py_str\<close>.  A \<^verbatim>\<open>pd.Timestamp\<close> is also a \<^verbatim>\<open>datetime\<close>, and the source tests for it first.
\<close>

definition pick_change_dt :: "(pyval \<Rightarrow> string) \<Rightarrow> pydict \<Rightarrow> string option" where
  "pick_change_dt py_str record =
     (let cand = py_or (dict_get record ''lastMdfcnDt'') (dict_get record ''ingested_at'')
      in case cand of
           PNone \<Rightarrow> None
         | PTimestamp d ns \<Rightarrow> Some (isoformat (to_pydatetime d ns))
         | PDatetime d \<Rightarrow> Some (isoformat d)
         | PStr s \<Rightarrow> Some (py_strip s)
         | other \<Rightarrow> Some (py_strip (py_str other)))"

section \<open>The path formatter\<close>

text \<open>
  \<^verbatim>\<open>re.findall(r"\['([^]]+)'\]", path)\<close>.  One match of the pattern at the head of a string:
  the two characters \<^verbatim>\<open>['\<close>, then the group, a non-empty run of characters other than
  \<^verbatim>\<open>]\<close>, then \<^verbatim>\<open>']\<close>.  The group is greedy, so it first takes every character up to the
  next \<^verbatim>\<open>]\<close>; the only way the rest of the pattern can then match is by giving back
  exactly one character, which has to be the quote.  The result is the group and the
  text after the match.
\<close>

definition match_segment :: "string \<Rightarrow> (string \<times> string) option" where
  "match_segment s =
     (case s of
        c1 # c2 # t \<Rightarrow>
          if c1 = CHR ''['' \<and> c2 = CHR 0x27 then
            (let run = takeWhile (\<lambda>c. c \<noteq> CHR '']'') t;
                 after = dropWhile (\<lambda>c. c \<noteq> CHR '']'') t
             in if after \<noteq> [] \<and> run \<noteq> [] \<and> last run = CHR 0x27 \<and> butlast run \<noteq> []
                then Some (butlast run, tl after)
                else None)
          else None
      | _ \<Rightarrow> None)"

lemma match_segment_shorter:
  "match_segment s = Some (g, r) \<Longrightarrow> length r < length s"
proof -
  assume m: "match_segment s = Some (g, r)"
  then obtain c1 c2 t where s: "s = c1 # c2 # t"
    by (cases s; cases "tl s") (auto simp: match_segment_def)
  from m s have "r = tl (dropWhile (\<lambda>c. c \<noteq> CHR '']'') t)"
    by (auto simp: match_segment_def Let_def split: if_splits)
  moreover have "length (dropWhile (\<lambda>c. c \<noteq> CHR '']'') t) \<le> length t"
    by (rule length_dropWhile_le)
  ultimately show ?thesis using s by simp
qed

text \<open>
  \<^verbatim>\<open>findall\<close> scans from the left: after a match it goes on behind the match, otherwise it
  moves one character ahead.
\<close>

function findall :: "string \<Rightarrow> string list" where
  "findall [] = []"
| "findall (c # cs) =
     (case match_segment (c # cs) of
        Some (g, r) \<Rightarrow> g # findall r
      | None \<Rightarrow> findall cs)"
  by pat_completeness auto
termination
  by (relation "measure length") (auto dest: match_segment_shorter)

text \<open>The constant \<^verbatim>\<open>"root['raw_json']"\<close> that both scripts remove.\<close>

definition root_raw_json :: string where
  "root_raw_json = ''root['' @ [CHR 0x27] @ ''raw_json'' @ [CHR 0x27] @ '']''"

text \<open>\<^verbatim>\<open>path_to_field\<close> of \<^verbatim>\<open>find_diff_2.py\<close>.\<close>

definition path_to_field :: "string \<Rightarrow> string" where
  "path_to_field path =
     (let parts = findall path
      in if parts \<noteq> [] then
           (let parts' = (if parts \<noteq> [] \<and> hd parts = ''raw_json'' then tl parts else parts)
            in if parts' \<noteq> [] then py_join ''.'' parts' else ''root'')
         else
           py_strip
             (py_replace ''root'' []
               (py_replace ''root.'' []
                 (py_replace root_raw_json [] path))))"

text \<open>The field name of \<^verbatim>\<open>find_diff_1.py\<close> (line 61): two replacements and a strip.\<close>

definition field_of_path1 :: "string \<Rightarrow> string" where
  "field_of_path1 path =
     py_strip (py_replace ''root'' [] (py_replace root_raw_json [] path))"

section \<open>The report of the diff library\<close>

text \<open>
  Both scripts call \<^verbatim>\<open>DeepDiff(base, other, ignore_order=True, exclude_paths=[...])\<close> of the
  \<^verbatim>\<open>deepdiff\<close> package and read the \<^verbatim>\<open>"values_changed"\<close> part of its report.  The package is
  a dependency of the repository; what follows is its documented behaviour on mappings
  and scalars.  A report is a collection of entries, each filed under one report type
  and located by the path of keys and indices from the root.
\<close>

datatype path_elem = Key string | Index nat

type_synonym path = "path_elem list"

datatype diff_entry =
    ValuesChanged path pyval pyval       \<comment> \<open>path, \<^verbatim>\<open>old_value\<close>, \<^verbatim>\<open>new_value\<close>\<close>
  | TypeChanges path pyval pyval         \<comment> \<open>path, \<^verbatim>\<open>old_value\<close>, \<^verbatim>\<open>new_value\<close>\<close>
  | DictionaryItemAdded path
  | DictionaryItemRemoved path
  | IterableItemAdded path pyval
  | IterableItemRemoved path pyval

datatype py_type =
  NoneType | T_bool | T_int | T_str | T_Timestamp | T_datetime | T_list | T_dict

fun type_of :: "pyval \<Rightarrow> py_type" where
  "type_of PNone = NoneType"
| "type_of (PBool b) = T_bool"
| "type_of (PInt n) = T_int"
| "type_of (PStr s) = T_str"
| "type_of (PTimestamp d ns) = T_Timestamp"
| "type_of (PDatetime d) = T_datetime"
| "type_of (PList xs) = T_list"
| "type_of (PDict kvs) = T_dict"

text \<open>
  The text form of a path, as the report prints it and as \<^verbatim>\<open>exclude_paths\<close> names it:
  \<^verbatim>\<open>root\<close>, then \<^verbatim>\<open>['key']\<close> for a text key and \<^verbatim>\<open>[i]\<close> for an index.  (The package prints
  a key that itself contains a quote with other quotes; such keys are outside the
  model.)
\<close>

fun elem_str :: "path_elem \<Rightarrow> string" where
  "elem_str (Key k) = ''['' @ [CHR 0x27] @ k @ [CHR 0x27] @ '']''"
| "elem_str (Index i) = ''['' @ dec_digits i @ '']''"

definition path_str :: "path \<Rightarrow> string" where
  "path_str p = ''root'' @ concat (map elem_str p)"

text \<open>
  The text keys of a path, in order (the indices left out); a key the text form of a
  path renders faithfully and the pattern of \<^verbatim>\<open>path_to_field\<close> reads back; and the paths
  on which the dotted form is unambiguous: text keys only, none with a dot, the first
  not the wrapper key.
\<close>

fun keys_of :: "path \<Rightarrow> string list" where
  "keys_of [] = []"
| "keys_of (Key k # p) = k # keys_of p"
| "keys_of (Index i # p) = keys_of p"

definition plain_key :: "string \<Rightarrow> bool" where
  "plain_key k = (k \<noteq> [] \<and> CHR '']'' \<notin> set k \<and> CHR 0x27 \<notin> set k)"

fun dotless_key :: "path_elem \<Rightarrow> bool" where
  "dotless_key (Key k) = (plain_key k \<and> CHR ''.'' \<notin> set k)"
| "dotless_key (Index i) = False"

definition collision_free :: "path \<Rightarrow> bool" where
  "collision_free p = (p \<noteq> [] \<and> list_all dotless_key p \<and> hd p \<noteq> Key ''raw_json'')"

text \<open>Entries found inside a sequence are located relative to it; \<open>below\<close> puts the path of the sequence in front.\<close>

fun below :: "path \<Rightarrow> diff_entry \<Rightarrow> diff_entry" where
  "below p (ValuesChanged q a b) = ValuesChanged (p @ q) a b"
| "below p (TypeChanges q a b) = TypeChanges (p @ q) a b"
| "below p (DictionaryItemAdded q) = DictionaryItemAdded (p @ q)"
| "below p (DictionaryItemRemoved q) = DictionaryItemRemoved (p @ q)"
| "below p (IterableItemAdded q a) = IterableItemAdded (p @ q) a"
| "below p (IterableItemRemoved q a) = IterableItemRemoved (p @ q) a"

text \<open>The path at which an entry is reported.\<close>

fun entry_path :: "diff_entry \<Rightarrow> path" where
  "entry_path (ValuesChanged p a b) = p"
| "entry_path (TypeChanges p a b) = p"
| "entry_path (DictionaryItemAdded p) = p"
| "entry_path (DictionaryItemRemoved p) = p"
| "entry_path (IterableItemAdded p a) = p"
| "entry_path (IterableItemRemoved p a) = p"

text \<open>A level is skipped when its path, in text form, is one of the excluded paths.\<close>

definition skip_this :: "string list \<Rightarrow> path \<Rightarrow> bool" where
  "skip_this exclude p = (path_str p \<in> set exclude)"

definition dict_keys :: "pydict \<Rightarrow> string list" where
  "dict_keys d = remdups (map fst d)"

lemma size_map_of:
  "map_of d k = Some v \<Longrightarrow> size v < Suc (size_list (size_prod (\<lambda>x. 0) size) d)"
  by (induction d) (auto split: if_splits)

text \<open>
  The comparison of one level.  A skipped level reports nothing.  Values of different
  types are one \<^verbatim>\<open>type_changes\<close> entry.  Two mappings report the keys of one side only as
  added or removed and compare the values of the common keys one level down.  Two
  scalars of the same type are one \<^verbatim>\<open>values_changed\<close> entry when they are not equal.
  The comparison of two sequences under \<^verbatim>\<open>ignore_order=True\<close> (hashing, pairing of the
  unmatched elements) is the parameter \<open>iter\<close>.  The package does not fix the order of
  the entries of one report; the order here is one choice, and no property below
  depends on it.
\<close>

function diff_level ::
  "(pyval list \<Rightarrow> pyval list \<Rightarrow> diff_entry list) \<Rightarrow> string list \<Rightarrow> path \<Rightarrow> pyval \<Rightarrow> pyval
     \<Rightarrow> diff_entry list"
where
  "diff_level iter exclude p t1 t2 =
     (if skip_this exclude p then []
      else if type_of t1 \<noteq> type_of t2 then [TypeChanges p t1 t2]
      else
        (case (t1, t2) of
           (PDict d1, PDict d2) \<Rightarrow>
               [DictionaryItemAdded (p @ [Key k]).
                  k \<leftarrow> dict_keys d2, map_of d1 k = None, \<not> skip_this exclude (p @ [Key k])]
             @ [DictionaryItemRemoved (p @ [Key k]).
                  k \<leftarrow> dict_keys d1, map_of d2 k = None, \<not> skip_this exclude (p @ [Key k])]
             @ concat (map (\<lambda>k.
                  case (map_of d1 k, map_of d2 k) of
                    (Some v1, Some v2) \<Rightarrow> diff_level iter exclude (p @ [Key k]) v1 v2
                  | _ \<Rightarrow> []) (dict_keys d1))
         | (PList xs, PList ys) \<Rightarrow> map (below p) (iter xs ys)
         | _ \<Rightarrow> if t1 \<noteq> t2 then [ValuesChanged p t1 t2] else []))"
  by pat_completeness auto
termination
  by (relation "measure (\<lambda>(iter, exclude, p, t1, t2). size t1)")
     (auto dest: size_map_of [OF sym])

declare diff_level.simps [simp del]

text \<open>The \<^verbatim>\<open>exclude_paths\<close> argument of both scripts.\<close>

definition exclude_paths :: "string list" where
  "exclude_paths =
     map (\<lambda>name. ''root['' @ [CHR 0x27] @ name @ [CHR 0x27] @ '']'')
       [''lastMdfcnDt'', ''frstRegDt'', ''ingested_at'', ''record_hash'', ''raw_ingest_id'']"

definition DeepDiff ::
  "(pyval list \<Rightarrow> pyval list \<Rightarrow> diff_entry list) \<Rightarrow> pydict \<Rightarrow> pydict \<Rightarrow> diff_entry list" where
  "DeepDiff iter base other = diff_level iter exclude_paths [] (PDict base) (PDict other)"

text \<open>
  \<^verbatim>\<open>diff["values_changed"].items()\<close>: the entries filed under \<^verbatim>\<open>values_changed\<close>, each with
  the text form of its path.  The key is in the report exactly when there is such an
  entry, so the test \<^verbatim>\<open>"values_changed" in diff\<close> is the test for an empty list.
\<close>

fun values_changed :: "diff_entry list \<Rightarrow> (string \<times> pyval \<times> pyval) list" where
  "values_changed [] = []"
| "values_changed (ValuesChanged p a b # es) = (path_str p, a, b) # values_changed es"
| "values_changed (e # es) = values_changed es"

section \<open>The comparison loops\<close>

text \<open>
  The rows \<^verbatim>\<open>find_diff_2.py\<close> appends to \<^verbatim>\<open>diff_rows\<close>.  The loops take the diff engine as the
  parameter \<open>differ\<close>; the scripts run them with \<open>DeepDiff\<close>.
\<close>

record diff_row =
  policy_id :: pyval
  compare_seq :: nat
  field :: string
  old_value :: pyval
  new_value :: pyval
  base_change_dt :: "string option"
  change_dt :: "string option"

text \<open>Lines 102 to 113: one row for every \<^verbatim>\<open>values_changed\<close> entry of one comparison.\<close>

definition rows_of_diff :: 
  "pyval \<Rightarrow> nat \<Rightarrow> string option \<Rightarrow> string option \<Rightarrow> diff_entry list \<Rightarrow> diff_row list" where
  "rows_of_diff pid idx base_dt dt diff =
     map (\<lambda>(path, old, new).
            \<lparr>policy_id = pid, compare_seq = idx, field = path_to_field path,
             old_value = old, new_value = new, base_change_dt = base_dt, change_dt = dt\<rparr>)
         (values_changed diff)"

text \<open>
  Lines 86 to 117: \<^verbatim>\<open>for idx, other in enumerate(records[1:], start=2)\<close>, with the state
  \<^verbatim>\<open>base\<close>, \<^verbatim>\<open>base_change_dt\<close> and \<^verbatim>\<open>diff_rows\<close>.  The base is replaced by \<^verbatim>\<open>other\<close> at the end
  of every round.
\<close>

fun compare_records2 ::
  "(pyval \<Rightarrow> string) \<Rightarrow> (pydict \<Rightarrow> pydict \<Rightarrow> diff_entry list) \<Rightarrow> pyval \<Rightarrow> nat \<Rightarrow> pydict
     \<Rightarrow> string option \<Rightarrow> pydict list \<Rightarrow> diff_row list \<Rightarrow> diff_row list"
where
  "compare_records2 py_str differ pid idx base base_dt [] diff_rows = diff_rows"
| "compare_records2 py_str differ pid idx base base_dt (other # rest) diff_rows =
     (let diff = differ base other;
          dt = pick_change_dt py_str other;
          diff_rows' = diff_rows @ rows_of_diff pid idx base_dt dt diff
      in compare_records2 py_str differ pid (Suc idx) other dt rest diff_rows')"

text \<open>Lines 79 to 84: a group of at most one record is passed over.\<close>

definition compare_group2 ::
  "(pyval \<Rightarrow> string) \<Rightarrow> (pydict \<Rightarrow> pydict \<Rightarrow> diff_entry list) \<Rightarrow> pyval \<Rightarrow> pydict list
     \<Rightarrow> diff_row list \<Rightarrow> diff_row list"
where
  "compare_group2 py_str differ pid records diff_rows =
     (if length records \<le> 1 then diff_rows
      else compare_records2 py_str differ pid 2 (hd records)
             (pick_change_dt py_str (hd records)) (tl records) diff_rows)"

text \<open>Line 77: the loop over the groups of one \<^verbatim>\<open>policy_id\<close> each.\<close>

definition find_diff_2 ::
  "(pyval \<Rightarrow> string) \<Rightarrow> (pydict \<Rightarrow> pydict \<Rightarrow> diff_entry list) \<Rightarrow> (pyval \<times> pydict list) list
     \<Rightarrow> diff_row list"
where
  "find_diff_2 py_str differ groups =
     foldl (\<lambda>diff_rows (pid, records). compare_group2 py_str differ pid records diff_rows)
       [] groups"

text \<open>
  The rows of \<^verbatim>\<open>find_diff_1.py\<close> and its loop (lines 42 to 68): the base stays
  \<^verbatim>\<open>records[0]\<close> for the whole group.
\<close>

record diff_row1 =
  policy_id1 :: pyval
  record_idx :: nat
  field1 :: string
  old_value1 :: pyval
  new_value1 :: pyval

definition rows_of_diff1 :: "pyval \<Rightarrow> nat \<Rightarrow> diff_entry list \<Rightarrow> diff_row1 list" where
  "rows_of_diff1 pid idx diff =
     map (\<lambda>(path, old, new).
            \<lparr>policy_id1 = pid, record_idx = idx, field1 = field_of_path1 path,
             old_value1 = old, new_value1 = new\<rparr>)
         (values_changed diff)"

fun compare_records1 ::
  "(pydict \<Rightarrow> pydict \<Rightarrow> diff_entry list) \<Rightarrow> pyval \<Rightarrow> nat \<Rightarrow> pydict \<Rightarrow> pydict list
     \<Rightarrow> diff_row1 list \<Rightarrow> diff_row1 list"
where
  "compare_records1 differ pid idx base [] diff_rows = diff_rows"
| "compare_records1 differ pid idx base (other # rest) diff_rows =
     (let diff = differ base other;
          diff_rows' = diff_rows @ rows_of_diff1 pid idx diff
      in compare_records1 differ pid (Suc idx) base rest diff_rows')"

definition compare_group1 ::
  "(pydict \<Rightarrow> pydict \<Rightarrow> diff_entry list) \<Rightarrow> pyval \<Rightarrow> pydict list \<Rightarrow> diff_row1 list
     \<Rightarrow> diff_row1 list"
where
  "compare_group1 differ pid records diff_rows =
     (if length records > 1
      then compare_records1 differ pid 2 (hd records) (tl records) diff_rows
      else diff_rows)"

definition find_diff_1 ::
  "(pydict \<Rightarrow> pydict \<Rightarrow> diff_entry list) \<Rightarrow> (pyval \<times> pydict list) list \<Rightarrow> diff_row1 list"
where
  "find_diff_1 differ groups =
     foldl (\<lambda>diff_rows (pid, records). compare_group1 differ pid records diff_rows) [] groups"

text \<open>
  Two stand-ins for the closed examples below, whose records hold no sequence and no
  timestamp field of another type than text: a sequence comparison that reports nothing
  and a rendering that yields the empty text.  Neither is ever consulted there.
\<close>

definition example_iter :: "pyval list \<Rightarrow> pyval list \<Rightarrow> diff_entry list" where
  "example_iter xs ys = []"

definition example_str :: "pyval \<Rightarrow> string" where
  "example_str v = []"

section \<open>The loops in closed form\<close>

text \<open>
  Round \<open>i\<close> of the loop of \<^verbatim>\<open>find_diff_2.py\<close> compares record \<open>i\<close> of the group with record
  \<open>i + 1\<close>; the loop of \<^verbatim>\<open>find_diff_1.py\<close> compares the first record with record \<open>i + 1\<close>.
\<close>

lemma compare_records2_closed:
  "compare_records2 py_str differ pid idx base base_dt rest rows =
     rows @ concat (map (\<lambda>i. rows_of_diff pid (idx + i)
                               ((base_dt # map (pick_change_dt py_str) rest) ! i)
                               (pick_change_dt py_str (rest ! i))
                               (differ ((base # rest) ! i) (rest ! i)))
                        [0..<length rest])"
proof (induction rest arbitrary: idx base base_dt rows)
  case Nil
  show ?case by simp
next
  case (Cons other rest)
  have "[0..<length (other # rest)] = 0 # map Suc [0..<length rest]"
    by (simp add: upt_conv_Cons map_Suc_upt del: upt_Suc)
  then show ?case
    by (simp add: Cons.IH Let_def comp_def del: upt_Suc)
qed

lemma compare_records1_closed:
  "compare_records1 differ pid idx base rest rows =
     rows @ concat (map (\<lambda>i. rows_of_diff1 pid (idx + i) (differ base (rest ! i)))
                        [0..<length rest])"
proof (induction rest arbitrary: idx rows)
  case Nil
  show ?case by simp
next
  case (Cons other rest)
  have "[0..<length (other # rest)] = 0 # map Suc [0..<length rest]"
    by (simp add: upt_conv_Cons map_Suc_upt del: upt_Suc)
  then show ?case
    by (simp add: Cons.IH Let_def comp_def del: upt_Suc)
qed

lemma compare_group2_closed:
  "compare_group2 py_str differ pid records rows =
     rows @ concat (map (\<lambda>k. rows_of_diff pid k
                               (pick_change_dt py_str (records ! (k - 2)))
                               (pick_change_dt py_str (records ! (k - 1)))
                               (differ (records ! (k - 2)) (records ! (k - 1))))
                        [2..<Suc (length records)])"
proof (cases records)
  case Nil
  then show ?thesis by (simp add: compare_group2_def)
next
  case (Cons base rest)
  have "map (\<lambda>i. i + 2) [0..<length rest] = [2..<length rest + 2]"
    by (rule map_add_upt)
  then have shift: "[2..<Suc (length records)] = map (\<lambda>i. 2 + i) [0..<length rest]"
    using Cons by (simp add: add.commute del: upt_Suc)
  have dts: "\<And>i. i < length rest \<Longrightarrow>
      (pick_change_dt py_str base # map (pick_change_dt py_str) rest) ! i
        = pick_change_dt py_str ((base # rest) ! i)"
    by (metis length_Cons less_Suc_eq list.simps(9) nth_map less_SucI)
  show ?thesis
  proof (cases rest)
    case Nil
    with Cons show ?thesis by (simp add: compare_group2_def)
  next
    case (Cons other rest')
    with \<open>records = base # rest\<close> have "\<not> length records \<le> 1" by simp
    then have "compare_group2 py_str differ pid records rows =
        compare_records2 py_str differ pid 2 base (pick_change_dt py_str base) rest rows"
      using \<open>records = base # rest\<close> by (simp add: compare_group2_def)
    also have "\<dots> = rows @ concat (map (\<lambda>i. rows_of_diff pid (2 + i)
                               (pick_change_dt py_str ((base # rest) ! i))
                               (pick_change_dt py_str (rest ! i))
                               (differ ((base # rest) ! i) (rest ! i)))
                        [0..<length rest])"
      unfolding compare_records2_closed
      by (intro arg_cong2 [where f = "(@)"] arg_cong [where f = concat] map_cong refl)
         (simp add: dts)
    also have "\<dots> = rows @ concat (map (\<lambda>k. rows_of_diff pid k
                               (pick_change_dt py_str (records ! (k - 2)))
                               (pick_change_dt py_str (records ! (k - 1)))
                               (differ (records ! (k - 2)) (records ! (k - 1))))
                        [2..<Suc (length records)])"
      unfolding shift using \<open>records = base # rest\<close> by (simp add: comp_def)
    finally show ?thesis .
  qed
qed

lemma compare_group1_closed:
  "compare_group1 differ pid records rows =
     rows @ concat (map (\<lambda>k. rows_of_diff1 pid k (differ (records ! 0) (records ! (k - 1))))
                        [2..<Suc (length records)])"
proof (cases records)
  case Nil
  then show ?thesis by (simp add: compare_group1_def)
next
  case (Cons base rest)
  have "map (\<lambda>i. i + 2) [0..<length rest] = [2..<length rest + 2]"
    by (rule map_add_upt)
  then have shift: "[2..<Suc (length records)] = map (\<lambda>i. 2 + i) [0..<length rest]"
    using Cons by (simp add: add.commute del: upt_Suc)
  show ?thesis
  proof (cases rest)
    case Nil
    with Cons show ?thesis by (simp add: compare_group1_def)
  next
    case (Cons other rest')
    with \<open>records = base # rest\<close> have "length records > 1" by simp
    then have "compare_group1 differ pid records rows =
        compare_records1 differ pid 2 base rest rows"
      using \<open>records = base # rest\<close> by (simp add: compare_group1_def)
    also have "\<dots> = rows @ concat (map (\<lambda>k. rows_of_diff1 pid k
                               (differ (records ! 0) (records ! (k - 1))))
                        [2..<Suc (length records)])"
      unfolding compare_records1_closed shift using \<open>records = base # rest\<close>
      by (simp add: comp_def)
    finally show ?thesis .
  qed
qed

section \<open>The timestamp resolver: properties\<close>

lemma py_strip_trimmed:
  "py_strip s = [] \<or> (\<not> py_isspace (hd (py_strip s)) \<and> \<not> py_isspace (last (py_strip s)))"
proof (cases "py_strip s = []")
  case True
  then show ?thesis by simp
next
  case False
  define u where "u = dropWhile py_isspace s"
  define v where "v = dropWhile py_isspace (rev u)"
  have t: "py_strip s = rev v" by (simp add: py_strip_def u_def v_def)
  with False have v: "v \<noteq> []" by simp
  then have u: "u \<noteq> []" by (auto simp: v_def)
  have "\<not> py_isspace (hd v)" using v unfolding v_def by (rule hd_dropWhile)
  then have l: "\<not> py_isspace (last (py_strip s))" using v by (simp add: t last_rev)
  have "rev u = takeWhile py_isspace (rev u) @ v" by (simp add: v_def)
  then have "last (rev u) = last v" using v by (metis last_appendR)
  moreover have "\<not> py_isspace (hd u)" using u unfolding u_def by (rule hd_dropWhile)
  ultimately have "\<not> py_isspace (hd (py_strip s))" using u v by (simp add: t hd_rev last_rev)
  with l show ?thesis by simp
qed

lemma map_of_filter_key:
  "map_of (filter (\<lambda>kv. fst kv \<noteq> k) d) k' = (if k' = k then None else map_of d k')"
  by (induction d) auto

lemma pick_change_dt_cand:
  "pick_change_dt py_str record =
     (case py_or (dict_get record ''lastMdfcnDt'') (dict_get record ''ingested_at'') of
        PNone \<Rightarrow> None
      | PTimestamp d ns \<Rightarrow> Some (isoformat d)
      | PDatetime d \<Rightarrow> Some (isoformat d)
      | PStr s \<Rightarrow> Some (py_strip s)
      | other \<Rightarrow> Some (py_strip (py_str other)))"
  by (simp add: pick_change_dt_def Let_def to_pydatetime_def split: pyval.splits)

text \<open>
  Claim C4, as the code has it.  \<^verbatim>\<open>pick_change_dt\<close> takes \<^verbatim>\<open>lastMdfcnDt\<close> when that value is
  truthy and \<^verbatim>\<open>ingested_at\<close> otherwise.  A \<^verbatim>\<open>pd.Timestamp\<close> or a \<^verbatim>\<open>datetime\<close> is rendered by
  \<^verbatim>\<open>isoformat\<close>; a text is trimmed of surrounding whitespace and passed on without
  validation.  The result is absent exactly when \<^verbatim>\<open>lastMdfcnDt\<close> is missing or falsy and
  \<^verbatim>\<open>ingested_at\<close> is missing or \<^verbatim>\<open>None\<close>.  An empty text in \<^verbatim>\<open>ingested_at\<close> and a text of
  whitespace only in either field resolve to the empty text, not to absent, and a
  whitespace-only \<^verbatim>\<open>lastMdfcnDt\<close> is not replaced by the fallback.
\<close>

theorem pick_change_dt_contract:
  "(truthy (dict_get record ''lastMdfcnDt'') \<longrightarrow>
      pick_change_dt py_str record
        = pick_change_dt py_str [(''lastMdfcnDt'', dict_get record ''lastMdfcnDt'')])
   \<and> (\<not> truthy (dict_get record ''lastMdfcnDt'') \<longrightarrow>
      pick_change_dt py_str record
        = pick_change_dt py_str [(''ingested_at'', dict_get record ''ingested_at'')])
   \<and> (pick_change_dt py_str record = None \<longleftrightarrow>
        \<not> truthy (dict_get record ''lastMdfcnDt'') \<and> dict_get record ''ingested_at'' = PNone)
   \<and> (\<forall>d ns. pick_change_dt py_str [(''lastMdfcnDt'', PTimestamp d ns)] = Some (isoformat d)
           \<and> pick_change_dt py_str [(''ingested_at'', PTimestamp d ns)] = Some (isoformat d))
   \<and> (\<forall>d. pick_change_dt py_str [(''lastMdfcnDt'', PDatetime d)] = Some (isoformat d)
         \<and> pick_change_dt py_str [(''ingested_at'', PDatetime d)] = Some (isoformat d))
   \<and> (\<forall>s. pick_change_dt py_str [(''lastMdfcnDt'', PStr s)]
              = (if s = [] then None else Some (py_strip s))
         \<and> pick_change_dt py_str [(''ingested_at'', PStr s)] = Some (py_strip s))
   \<and> (\<forall>s. py_strip s = [] \<or>
          (\<not> py_isspace (hd (py_strip s)) \<and> \<not> py_isspace (last (py_strip s))))"
proof -
  let ?a = "dict_get record ''lastMdfcnDt''" and ?b = "dict_get record ''ingested_at''"
  have 1: "truthy ?a \<longrightarrow> pick_change_dt py_str record
        = pick_change_dt py_str [(''lastMdfcnDt'', ?a)]"
    by (simp add: pick_change_dt_cand py_or_def dict_get_def)
  have 2: "\<not> truthy ?a \<longrightarrow> pick_change_dt py_str record
        = pick_change_dt py_str [(''ingested_at'', ?b)]"
    by (simp add: pick_change_dt_cand py_or_def dict_get_def)
  have 3: "pick_change_dt py_str record = None \<longleftrightarrow> \<not> truthy ?a \<and> ?b = PNone"
    by (cases "?a"; cases "?b") (simp_all add: pick_change_dt_cand py_or_def)
  have 4: "\<forall>d ns. pick_change_dt py_str [(''lastMdfcnDt'', PTimestamp d ns)] = Some (isoformat d)
           \<and> pick_change_dt py_str [(''ingested_at'', PTimestamp d ns)] = Some (isoformat d)"
    by (simp add: pick_change_dt_cand py_or_def dict_get_def)
  have 5: "\<forall>d. pick_change_dt py_str [(''lastMdfcnDt'', PDatetime d)] = Some (isoformat d)
         \<and> pick_change_dt py_str [(''ingested_at'', PDatetime d)] = Some (isoformat d)"
    by (simp add: pick_change_dt_cand py_or_def dict_get_def)
  have 6: "\<forall>s. pick_change_dt py_str [(''lastMdfcnDt'', PStr s)]
              = (if s = [] then None else Some (py_strip s))
         \<and> pick_change_dt py_str [(''ingested_at'', PStr s)] = Some (py_strip s)"
    by (simp add: pick_change_dt_cand py_or_def dict_get_def)
  have 7: "\<forall>s. py_strip s = [] \<or>
          (\<not> py_isspace (hd (py_strip s)) \<and> \<not> py_isspace (last (py_strip s)))"
    using py_strip_trimmed by blast
  from 1 2 3 4 5 6 7 show ?thesis by blast
qed

text \<open>
  The contract at three records: a whitespace-only \<^verbatim>\<open>lastMdfcnDt\<close> beside a dated
  \<^verbatim>\<open>ingested_at\<close>, a padded \<^verbatim>\<open>ingested_at\<close> alone, and a \<^verbatim>\<open>lastMdfcnDt\<close> of \<^verbatim>\<open>None\<close> alone.
\<close>

theorem pick_change_dt_contract_witness:
  "pick_change_dt example_str [(''lastMdfcnDt'', PStr ''  ''), (''ingested_at'', PStr ''2024-01-01'')]
     = Some []
   \<and> pick_change_dt example_str [(''ingested_at'', PStr '' 2024-01-01 '')] = Some ''2024-01-01''
   \<and> pick_change_dt example_str [(''lastMdfcnDt'', PNone)] = None"
proof -
  let ?r = "[(''lastMdfcnDt'', PStr ''  ''), (''ingested_at'', PStr ''2024-01-01'')]"
  have a: "dict_get ?r ''lastMdfcnDt'' = PStr ''  ''"
    by (simp add: dict_get_def)
  have s1: "py_strip ''  '' = []" by (simp add: py_strip_def py_isspace_def)
  have s2: "py_strip '' 2024-01-01 '' = ''2024-01-01''" by (simp add: py_strip_def py_isspace_def)
  have "truthy (dict_get ?r ''lastMdfcnDt'')" by (simp add: a)
  then have "pick_change_dt example_str ?r
      = pick_change_dt example_str [(''lastMdfcnDt'', dict_get ?r ''lastMdfcnDt'')]"
    using pick_change_dt_contract [of ?r example_str] by blast
  moreover have "pick_change_dt example_str [(''lastMdfcnDt'', PStr ''  '')]
      = (if ''  '' = [] then None else Some (py_strip ''  ''))"
    using pick_change_dt_contract [of ?r example_str] by blast
  ultimately have 1: "pick_change_dt example_str ?r = Some []"
    by (simp add: a s1)
  have "pick_change_dt example_str [(''ingested_at'', PStr '' 2024-01-01 '')]
      = Some (py_strip '' 2024-01-01 '')"
    using pick_change_dt_contract [of ?r example_str] by blast
  then have 2: "pick_change_dt example_str [(''ingested_at'', PStr '' 2024-01-01 '')]
      = Some ''2024-01-01''"
    by (simp only: s2)
  have "pick_change_dt example_str [(''lastMdfcnDt'', PNone)] = None \<longleftrightarrow>
      \<not> truthy (dict_get [(''lastMdfcnDt'', PNone)] ''lastMdfcnDt'')
      \<and> dict_get [(''lastMdfcnDt'', PNone)] ''ingested_at'' = PNone"
    using pick_change_dt_contract [of "[(''lastMdfcnDt'', PNone)]" example_str] by blast
  then have 3: "pick_change_dt example_str [(''lastMdfcnDt'', PNone)] = None"
    by (simp add: dict_get_def)
  from 1 2 3 show ?thesis by blast
qed

text \<open>
  Claim C4 as the specification states it fails: with both fields present and empty, or
  both of whitespace only, the result is the empty text and not absent.
\<close>

theorem pick_change_dt_empty_text_counterexample:
  "pick_change_dt example_str [(''lastMdfcnDt'', PStr ''''), (''ingested_at'', PStr '''')] \<noteq> None
   \<and> pick_change_dt example_str [(''lastMdfcnDt'', PStr ''  ''), (''ingested_at'', PStr ''  '')] \<noteq> None"
  by (simp add: pick_change_dt_cand py_or_def dict_get_def)

lemma py_strip_decomp:
  "\<exists>a b. s = a @ py_strip s @ b \<and> list_all py_isspace a \<and> list_all py_isspace b"
proof -
  define u where "u = dropWhile py_isspace s"
  let ?a = "takeWhile py_isspace s" and ?b = "rev (takeWhile py_isspace (rev u))"
  have "u = rev (takeWhile py_isspace (rev u) @ dropWhile py_isspace (rev u))"
    by (simp only: takeWhile_dropWhile_id rev_rev_ident)
  then have "u = rev (dropWhile py_isspace (rev u)) @ ?b"
    by (simp only: rev_append)
  then have "u = py_strip s @ ?b" by (simp only: py_strip_def u_def)
  moreover have "s = ?a @ u" by (simp add: u_def)
  ultimately have "s = ?a @ py_strip s @ ?b" by simp
  moreover have "list_all py_isspace ?a"
    by (auto simp: list_all_iff dest: set_takeWhileD)
  moreover have "list_all py_isspace ?b"
    by (auto simp: list_all_iff dest: set_takeWhileD)
  ultimately show ?thesis by blast
qed

text \<open>
  Claim C9.  When \<^verbatim>\<open>lastMdfcnDt\<close> is present and holds \<^verbatim>\<open>None\<close> or the empty text, the result is
  the normal form of \<^verbatim>\<open>ingested_at\<close>: absent when that is missing or \<^verbatim>\<open>None\<close>, the
  \<^verbatim>\<open>isoformat\<close> text of a timestamp, and a text with its surrounding whitespace removed
  (what is removed on either side is whitespace only, and what is left neither starts
  nor ends with whitespace).  It is the result for the same record without
  \<^verbatim>\<open>lastMdfcnDt\<close>.  When \<^verbatim>\<open>ingested_at\<close> holds the empty text too, the result is the empty
  text and not absent.
\<close>

theorem empty_primary_falls_back:
  assumes "map_of record ''lastMdfcnDt'' = Some v" and "v = PNone \<or> v = PStr []"
  shows "pick_change_dt py_str record =
           (case dict_get record ''ingested_at'' of
              PNone \<Rightarrow> None
            | PStr s \<Rightarrow> Some (py_strip s)
            | PTimestamp d ns \<Rightarrow> Some (isoformat d)
            | PDatetime d \<Rightarrow> Some (isoformat d)
            | other \<Rightarrow> Some (py_strip (py_str other)))
       \<and> pick_change_dt py_str record
           = pick_change_dt py_str (filter (\<lambda>kv. fst kv \<noteq> ''lastMdfcnDt'') record)
       \<and> (map_of record ''ingested_at'' = Some (PStr []) \<longrightarrow>
            pick_change_dt py_str record = Some [])
       \<and> (\<forall>s. \<exists>a b. s = a @ py_strip s @ b \<and> list_all py_isspace a \<and> list_all py_isspace b
                 \<and> (py_strip s = [] \<or>
                      \<not> py_isspace (hd (py_strip s)) \<and> \<not> py_isspace (last (py_strip s))))"
proof -
  from assms have f: "\<not> truthy (dict_get record ''lastMdfcnDt'')"
    by (auto simp: dict_get_def)
  have g: "dict_get (filter (\<lambda>kv. fst kv \<noteq> ''lastMdfcnDt'') record) ''lastMdfcnDt'' = PNone"
    by (simp add: dict_get_def map_of_filter_key)
  have h: "dict_get (filter (\<lambda>kv. fst kv \<noteq> ''lastMdfcnDt'') record) ''ingested_at''
             = dict_get record ''ingested_at''"
    by (simp add: dict_get_def map_of_filter_key)
  have 1: "pick_change_dt py_str record =
           (case dict_get record ''ingested_at'' of
              PNone \<Rightarrow> None
            | PStr s \<Rightarrow> Some (py_strip s)
            | PTimestamp d ns \<Rightarrow> Some (isoformat d)
            | PDatetime d \<Rightarrow> Some (isoformat d)
            | other \<Rightarrow> Some (py_strip (py_str other)))"
    using f by (simp add: pick_change_dt_cand py_or_def split: pyval.splits)
  have 2: "pick_change_dt py_str record
           = pick_change_dt py_str (filter (\<lambda>kv. fst kv \<noteq> ''lastMdfcnDt'') record)"
    using f g h by (simp add: pick_change_dt_cand py_or_def)
  have 3: "map_of record ''ingested_at'' = Some (PStr []) \<longrightarrow>
            pick_change_dt py_str record = Some []"
    using f by (simp add: pick_change_dt_cand py_or_def dict_get_def py_strip_def)
  have 4: "\<forall>s. \<exists>a b. s = a @ py_strip s @ b \<and> list_all py_isspace a \<and> list_all py_isspace b
                 \<and> (py_strip s = [] \<or>
                      \<not> py_isspace (hd (py_strip s)) \<and> \<not> py_isspace (last (py_strip s)))"
    using py_strip_decomp py_strip_trimmed by blast
  from 1 2 3 4 show ?thesis by blast
qed

text \<open>
  Four records with an empty primary field: both fields empty, a padded text as the
  fallback, a timestamp as the fallback, and no fallback.
\<close>

theorem empty_primary_falls_back_witness:
  "pick_change_dt example_str [(''lastMdfcnDt'', PStr []), (''ingested_at'', PStr [])] = Some []
   \<and> pick_change_dt example_str [(''lastMdfcnDt'', PNone), (''ingested_at'', PStr '' 2024 '')]
       = Some ''2024''
   \<and> pick_change_dt example_str
        [(''lastMdfcnDt'', PStr []),
         (''ingested_at'',
          PTimestamp \<lparr>year = 2024, month = 2, day = 3, hour = 4, minute = 5, second = 6,
                      microsecond = 0\<rparr> 7)]
       = Some ''2024-02-03T04:05:06''
   \<and> pick_change_dt example_str [(''lastMdfcnDt'', PNone)] = None"
proof -
  let ?r = "[(''lastMdfcnDt'', PStr []), (''ingested_at'', PStr [])]"
  let ?q = "[(''lastMdfcnDt'', PNone), (''ingested_at'', PStr '' 2024 '')]"
  let ?d = "\<lparr>year = 2024, month = 2, day = 3, hour = 4, minute = 5, second = 6,
                      microsecond = 0\<rparr>"
  let ?t = "[(''lastMdfcnDt'', PStr []), (''ingested_at'', PTimestamp ?d 7)]"
  let ?n = "[(''lastMdfcnDt'', PNone)]"
  have "map_of ?r ''lastMdfcnDt'' = Some (PStr [])" and "map_of ?r ''ingested_at'' = Some (PStr [])"
    by simp_all
  then have 1: "pick_change_dt example_str ?r = Some []"
    using empty_primary_falls_back [of ?r "PStr []" example_str] by blast
  have s: "py_strip '' 2024 '' = ''2024''" by (simp add: py_strip_def py_isspace_def)
  have "map_of ?q ''lastMdfcnDt'' = Some PNone" by simp
  then have "pick_change_dt example_str ?q =
           (case dict_get ?q ''ingested_at'' of
              PNone \<Rightarrow> None
            | PStr s \<Rightarrow> Some (py_strip s)
            | PTimestamp d ns \<Rightarrow> Some (isoformat d)
            | PDatetime d \<Rightarrow> Some (isoformat d)
            | other \<Rightarrow> Some (py_strip (example_str other)))"
    using empty_primary_falls_back [of ?q PNone example_str] by blast
  then have 2: "pick_change_dt example_str ?q = Some ''2024''"
    by (simp add: dict_get_def s)
  have i: "isoformat ?d = ''2024-02-03T04:05:06''" by code_simp
  have "map_of ?t ''lastMdfcnDt'' = Some (PStr [])" by simp
  then have "pick_change_dt example_str ?t =
           (case dict_get ?t ''ingested_at'' of
              PNone \<Rightarrow> None
            | PStr s \<Rightarrow> Some (py_strip s)
            | PTimestamp d ns \<Rightarrow> Some (isoformat d)
            | PDatetime d \<Rightarrow> Some (isoformat d)
            | other \<Rightarrow> Some (py_strip (example_str other)))"
    using empty_primary_falls_back [of ?t "PStr []" example_str] by blast
  then have 3: "pick_change_dt example_str ?t = Some ''2024-02-03T04:05:06''"
    by (simp add: dict_get_def i)
  have "map_of ?n ''lastMdfcnDt'' = Some PNone" by simp
  then have "pick_change_dt example_str ?n =
           (case dict_get ?n ''ingested_at'' of
              PNone \<Rightarrow> None
            | PStr s \<Rightarrow> Some (py_strip s)
            | PTimestamp d ns \<Rightarrow> Some (isoformat d)
            | PDatetime d \<Rightarrow> Some (isoformat d)
            | other \<Rightarrow> Some (py_strip (example_str other)))"
    using empty_primary_falls_back [of ?n PNone example_str] by blast
  then have 4: "pick_change_dt example_str ?n = None"
    by (simp add: dict_get_def)
  from 1 2 3 4 show ?thesis by blast
qed

section \<open>The change sequencer: properties\<close>

lemma rows_of_diff_member:
  "r \<in> set (rows_of_diff pid k bdt dt diff) \<longleftrightarrow>
     (\<exists>path old new. (path, old, new) \<in> set (values_changed diff) \<and>
        r = \<lparr>policy_id = pid, compare_seq = k, field = path_to_field path,
             old_value = old, new_value = new, base_change_dt = bdt, change_dt = dt\<rparr>)"
  by (auto simp: rows_of_diff_def image_iff split: prod.splits)

text \<open>
  Claim C1, for \<^verbatim>\<open>find_diff_2.py\<close>.  Every row emitted for a group carries a \<^verbatim>\<open>compare_seq\<close>
  \<open>k\<close> between 2 and the number of records, and its field, old value and new value are
  those of a \<^verbatim>\<open>values_changed\<close> entry of the diff of record \<open>k - 1\<close> against record \<open>k\<close>
  (counted from 1): the base of round \<open>k\<close> is the record the round before compared as
  \<^verbatim>\<open>other\<close>, never the first record.  Its two timestamps are resolved from these two
  records.
\<close>

theorem base_rolls_forward:
  assumes "r \<in> set (compare_group2 py_str differ pid records [])"
  shows "2 \<le> compare_seq r \<and> compare_seq r \<le> length records
       \<and> (\<exists>path. (path, old_value r, new_value r)
               \<in> set (values_changed (differ (records ! (compare_seq r - 2))
                                               (records ! (compare_seq r - 1))))
             \<and> field r = path_to_field path)
       \<and> base_change_dt r = pick_change_dt py_str (records ! (compare_seq r - 2))
       \<and> change_dt r = pick_change_dt py_str (records ! (compare_seq r - 1))"
proof -
  from assms obtain k where k: "k \<in> set [2..<Suc (length records)]"
    and r: "r \<in> set (rows_of_diff pid k
                 (pick_change_dt py_str (records ! (k - 2)))
                 (pick_change_dt py_str (records ! (k - 1)))
                 (differ (records ! (k - 2)) (records ! (k - 1))))"
    unfolding compare_group2_closed by auto
  from r obtain path old new
    where v: "(path, old, new) \<in> set (values_changed (differ (records ! (k - 2)) (records ! (k - 1))))"
      and e: "r = \<lparr>policy_id = pid, compare_seq = k, field = path_to_field path,
             old_value = old, new_value = new,
             base_change_dt = pick_change_dt py_str (records ! (k - 2)),
             change_dt = pick_change_dt py_str (records ! (k - 1))\<rparr>"
    unfolding rows_of_diff_member by blast
  from e have s: "compare_seq r = k" by simp
  from k have "2 \<le> k" and "k \<le> length records" by auto
  moreover from v e have "\<exists>path. (path, old_value r, new_value r)
               \<in> set (values_changed (differ (records ! (k - 2)) (records ! (k - 1))))
             \<and> field r = path_to_field path"
    by auto
  moreover from e have "base_change_dt r = pick_change_dt py_str (records ! (k - 2))"
    and "change_dt r = pick_change_dt py_str (records ! (k - 1))" by simp_all
  ultimately show ?thesis unfolding s by blast
qed

text \<open>
  The snapshots \<^verbatim>\<open>{x: 1}\<close>, \<^verbatim>\<open>{x: 2}\<close>, \<^verbatim>\<open>{x: 3}\<close>: \<^verbatim>\<open>find_diff_2.py\<close> emits the change from 1
  to 2 at 2 and the change from 2 to 3 at 3.
\<close>

theorem base_rolls_forward_witness:
  "\<lparr>policy_id = PStr ''P001'', compare_seq = 3, field = ''x'', old_value = PInt 2,
     new_value = PInt 3, base_change_dt = None, change_dt = None\<rparr>
     \<in> set (compare_group2 example_str (DeepDiff example_iter) (PStr ''P001'')
              [[(''x'', PInt 1)], [(''x'', PInt 2)], [(''x'', PInt 3)]] [])
   \<and> (\<exists>path. (path, PInt 2, PInt 3)
          \<in> set (values_changed (DeepDiff example_iter [(''x'', PInt 2)] [(''x'', PInt 3)]))
        \<and> ''x'' = path_to_field path)
   \<and> compare_group2 example_str (DeepDiff example_iter) (PStr ''P001'')
        [[(''x'', PInt 1)], [(''x'', PInt 2)], [(''x'', PInt 3)]] []
      = [\<lparr>policy_id = PStr ''P001'', compare_seq = 2, field = ''x'', old_value = PInt 1,
           new_value = PInt 2, base_change_dt = None, change_dt = None\<rparr>,
         \<lparr>policy_id = PStr ''P001'', compare_seq = 3, field = ''x'', old_value = PInt 2,
           new_value = PInt 3, base_change_dt = None, change_dt = None\<rparr>]"
proof -
  let ?recs = "[[(''x'', PInt 1)], [(''x'', PInt 2)], [(''x'', PInt 3)]]"
  let ?r = "\<lparr>policy_id = PStr ''P001'', compare_seq = 3, field = ''x'', old_value = PInt 2,
     new_value = PInt 3, base_change_dt = None, change_dt = None\<rparr>"
  have all: "compare_group2 example_str (DeepDiff example_iter) (PStr ''P001'') ?recs []
      = [\<lparr>policy_id = PStr ''P001'', compare_seq = 2, field = ''x'', old_value = PInt 1,
           new_value = PInt 2, base_change_dt = None, change_dt = None\<rparr>, ?r]"
    by code_simp
  then have h: "?r \<in> set (compare_group2 example_str (DeepDiff example_iter) (PStr ''P001'') ?recs [])"
    by simp
  have "\<exists>path. (path, old_value ?r, new_value ?r)
               \<in> set (values_changed (DeepDiff example_iter (?recs ! (compare_seq ?r - 2))
                                               (?recs ! (compare_seq ?r - 1))))
             \<and> field ?r = path_to_field path"
    using base_rolls_forward [OF h] by blast
  then have "\<exists>path. (path, PInt 2, PInt 3)
          \<in> set (values_changed (DeepDiff example_iter [(''x'', PInt 2)] [(''x'', PInt 3)]))
        \<and> ''x'' = path_to_field path"
    by (simp add: numeral_3_eq_3)
  with h all show ?thesis by blast
qed

text \<open>
  Claim C1 does not hold for \<^verbatim>\<open>find_diff_1.py\<close>, whose base stays the first record: on
  the same three snapshots it emits the change from 1 to 3 at index 3.
\<close>

theorem find_diff_1_keeps_first_base_counterexample:
  "compare_group1 (DeepDiff example_iter) (PStr ''P001'')
     [[(''x'', PInt 1)], [(''x'', PInt 2)], [(''x'', PInt 3)]] []
   = [\<lparr>policy_id1 = PStr ''P001'', record_idx = 2,
        field1 = ''['' @ [CHR 0x27] @ ''x'' @ [CHR 0x27] @ '']'',
        old_value1 = PInt 1, new_value1 = PInt 2\<rparr>,
      \<lparr>policy_id1 = PStr ''P001'', record_idx = 3,
        field1 = ''['' @ [CHR 0x27] @ ''x'' @ [CHR 0x27] @ '']'',
        old_value1 = PInt 1, new_value1 = PInt 3\<rparr>]"
  by code_simp

text \<open>
  Claim C3.  For a group of \<open>N\<close> records both scripts append the rows of exactly the
  comparisons numbered 2 to \<open>N\<close>, in this order, which are \<open>N - 1\<close> comparisons;
  \<^verbatim>\<open>find_diff_2.py\<close> compares record \<open>k - 1\<close> with record \<open>k\<close> and \<^verbatim>\<open>find_diff_1.py\<close> the first
  record with record \<open>k\<close>.  A group of one record yields no row.
\<close>

theorem chain_length:
  "compare_group2 py_str differ pid records rows =
     rows @ concat (map (\<lambda>k. rows_of_diff pid k
                               (pick_change_dt py_str (records ! (k - 2)))
                               (pick_change_dt py_str (records ! (k - 1)))
                               (differ (records ! (k - 2)) (records ! (k - 1))))
                        [2..<Suc (length records)])
   \<and> compare_group1 differ pid records rows1 =
     rows1 @ concat (map (\<lambda>k. rows_of_diff1 pid k (differ (records ! 0) (records ! (k - 1))))
                        [2..<Suc (length records)])
   \<and> length [2..<Suc (length records)] = length records - 1
   \<and> compare_group2 py_str differ pid [s] [] = []
   \<and> compare_group1 differ pid [s] [] = []"
proof -
  have "length [2..<Suc (length records)] = length records - 1"
    by (simp del: upt_Suc)
  moreover have "compare_group2 py_str differ pid [s] [] = []"
    by (simp add: compare_group2_def)
  moreover have "compare_group1 differ pid [s] [] = []"
    by (simp add: compare_group1_def)
  ultimately show ?thesis
    using compare_group2_closed [of py_str differ pid records rows]
          compare_group1_closed [of differ pid records rows1]
    by blast
qed

text \<open>Three snapshots give the comparisons 2 and 3; one snapshot gives no row.\<close>

theorem chain_length_witness:
  "compare_group2 example_str (DeepDiff example_iter) (PStr ''P001'')
        [[(''x'', PInt 1)], [(''x'', PInt 2)], [(''x'', PInt 3)]] []
      = [\<lparr>policy_id = PStr ''P001'', compare_seq = 2, field = ''x'', old_value = PInt 1,
           new_value = PInt 2, base_change_dt = None, change_dt = None\<rparr>,
         \<lparr>policy_id = PStr ''P001'', compare_seq = 3, field = ''x'', old_value = PInt 2,
           new_value = PInt 3, base_change_dt = None, change_dt = None\<rparr>]
   \<and> [2..<Suc (length [[(''x'', PInt 1)], [(''x'', PInt 2)], [(''x'', PInt 3)]])] = [2, 3]
   \<and> compare_group2 example_str (DeepDiff example_iter) (PStr ''P001'') [[(''x'', PInt 1)]] [] = []"
proof -
  let ?recs = "[[(''x'', PInt 1)], [(''x'', PInt 2)], [(''x'', PInt 3)]]"
  have "compare_group2 example_str (DeepDiff example_iter) (PStr ''P001'') ?recs [] =
     [] @ concat (map (\<lambda>k. rows_of_diff (PStr ''P001'') k
                               (pick_change_dt example_str (?recs ! (k - 2)))
                               (pick_change_dt example_str (?recs ! (k - 1)))
                               (DeepDiff example_iter (?recs ! (k - 2)) (?recs ! (k - 1))))
                        [2..<Suc (length ?recs)])"
    using chain_length [of example_str "DeepDiff example_iter" "PStr ''P001''" ?recs "[]"]
    by blast
  also have "\<dots> = [\<lparr>policy_id = PStr ''P001'', compare_seq = 2, field = ''x'', old_value = PInt 1,
           new_value = PInt 2, base_change_dt = None, change_dt = None\<rparr>,
         \<lparr>policy_id = PStr ''P001'', compare_seq = 3, field = ''x'', old_value = PInt 2,
           new_value = PInt 3, base_change_dt = None, change_dt = None\<rparr>]"
    by code_simp
  finally have 1: "compare_group2 example_str (DeepDiff example_iter) (PStr ''P001'') ?recs []
      = [\<lparr>policy_id = PStr ''P001'', compare_seq = 2, field = ''x'', old_value = PInt 1,
           new_value = PInt 2, base_change_dt = None, change_dt = None\<rparr>,
         \<lparr>policy_id = PStr ''P001'', compare_seq = 3, field = ''x'', old_value = PInt 2,
           new_value = PInt 3, base_change_dt = None, change_dt = None\<rparr>]" .
  have 2: "[2..<Suc (length ?recs)] = [2, 3]" by code_simp
  have 3: "compare_group2 example_str (DeepDiff example_iter) (PStr ''P001'') [[(''x'', PInt 1)]] [] = []"
    using chain_length [of example_str "DeepDiff example_iter" "PStr ''P001''" ?recs "[]"]
    by blast
  from 1 2 3 show ?thesis by blast
qed

section \<open>The path formatter: properties\<close>

lemma match_segment_other_head:
  "CHR ''['' \<noteq> c \<Longrightarrow> match_segment (c # s) = None"
  by (auto simp: match_segment_def split: list.splits)

lemma findall_skip:
  "CHR ''['' \<notin> set cs \<Longrightarrow> findall (cs @ t) = findall t"
  by (induction cs) (simp_all add: match_segment_other_head)

lemma match_segment_key:
  assumes "k \<noteq> []" and "CHR '']'' \<notin> set k"
  shows "match_segment (elem_str (Key k) @ t) = Some (k, t)"
proof -
  let ?P = "\<lambda>c. c \<noteq> CHR '']''"
  have run: "takeWhile ?P (k @ CHR 0x27 # CHR '']'' # t) = k @ [CHR 0x27]"
    using assms(2) by (simp add: takeWhile_append)
  have after: "dropWhile ?P (k @ CHR 0x27 # CHR '']'' # t) = CHR '']'' # t"
    using assms(2) by (simp add: dropWhile_append)
  show ?thesis
    using assms(1) by (simp add: match_segment_def run after)
qed

lemma digit_char_cases: "digit_char n \<in> set ''0123456789''"
proof -
  have "n mod 10 < length ''0123456789''" by simp
  then show ?thesis unfolding digit_char_def by (rule nth_mem)
qed

lemma dec_digits_chars: "c \<in> set (dec_digits n) \<Longrightarrow> c \<in> set ''0123456789''"
proof (induction n rule: dec_digits.induct)
  case (1 n)
  show ?case
  proof (cases "n < 10")
    case True
    with "1.prems" have "c = digit_char n" by (simp add: dec_digits.simps [of n])
    then show ?thesis using digit_char_cases [of n] by simp
  next
    case False
    with "1.prems" have "c \<in> set (dec_digits (n div 10)) \<or> c = digit_char n"
      by (auto simp: dec_digits.simps [of n])
    then show ?thesis
      using "1.IH" [OF False] digit_char_cases [of n] by blast
  qed
qed

lemma dec_digits_nonempty: "dec_digits n \<noteq> []"
  by (simp add: dec_digits.simps [of n])

lemma findall_index: "findall (elem_str (Index i) @ t) = findall t"
proof -
  obtain d ds where ds: "dec_digits i = d # ds"
    using dec_digits_nonempty [of i] by (cases "dec_digits i") auto
  have chars: "c \<in> set ''0123456789''" if "c \<in> set (d # ds)" for c
    using dec_digits_chars [of c i] ds that by simp
  have "d \<noteq> CHR 0x27" using chars [of d] by auto
  then have "match_segment (CHR ''['' # d # ds @ CHR '']'' # t) = None"
    by (simp add: match_segment_def)
  then have "findall (elem_str (Index i) @ t) = findall ((d # ds @ '']'') @ t)"
    by (simp add: ds)
  also have "CHR ''['' \<notin> set (d # ds @ '']'')"
    using chars by fastforce
  then have "findall ((d # ds @ '']'') @ t) = findall t"
    by (rule findall_skip)
  finally show ?thesis .
qed

lemma findall_elems:
  "list_all plain_key (keys_of p) \<Longrightarrow> findall (concat (map elem_str p)) = keys_of p"
proof (induction p)
  case Nil
  show ?case by simp
next
  case (Cons e p)
  show ?case
  proof (cases e)
    case (Key k)
    with Cons.prems have "plain_key k" and rest: "list_all plain_key (keys_of p)"
      by simp_all
    then have k: "k \<noteq> []" "CHR '']'' \<notin> set k"
      by (simp_all add: plain_key_def)
    have "findall (elem_str (Key k) @ concat (map elem_str p)) = k # findall (concat (map elem_str p))"
      using match_segment_key [OF k, of "concat (map elem_str p)"] by simp
    with Key Cons.IH [OF rest] show ?thesis by simp
  next
    case (Index i)
    with Cons show ?thesis by (simp add: findall_index del: elem_str.simps)
  qed
qed

lemma findall_path_str:
  "list_all plain_key (keys_of p) \<Longrightarrow> findall (path_str p) = keys_of p"
  unfolding path_str_def using findall_skip [of "''root''"] by (simp add: findall_elems)

lemma path_to_field_path_str:
  assumes "list_all plain_key (keys_of p)" and "keys_of p \<noteq> []"
  shows "path_to_field (path_str p) =
           (if hd (keys_of p) = ''raw_json''
            then (if tl (keys_of p) = [] then ''root'' else py_join ''.'' (tl (keys_of p)))
            else py_join ''.'' (keys_of p))"
  using assms by (simp add: path_to_field_def findall_path_str Let_def)

lemma py_join_head:
  assumes "CHR ''.'' \<notin> set a"
  shows "takeWhile (\<lambda>c. c \<noteq> CHR ''.'') (py_join ''.'' (a # as)) = a"
    and "dropWhile (\<lambda>c. c \<noteq> CHR ''.'') (py_join ''.'' (a # as))
           = (if as = [] then [] else CHR ''.'' # py_join ''.'' as)"
proof -
  have all: "\<forall>c \<in> set a. c \<noteq> CHR ''.''" using assms by auto
  show "takeWhile (\<lambda>c. c \<noteq> CHR ''.'') (py_join ''.'' (a # as)) = a"
    using all by (cases as) (simp_all add: takeWhile_append)
  show "dropWhile (\<lambda>c. c \<noteq> CHR ''.'') (py_join ''.'' (a # as))
           = (if as = [] then [] else CHR ''.'' # py_join ''.'' as)"
    using all by (cases as) (simp_all add: dropWhile_append)
qed

lemma py_join_inject:
  assumes "\<forall>k \<in> set ks. CHR ''.'' \<notin> set k" and "\<forall>k \<in> set ks'. CHR ''.'' \<notin> set k"
    and "ks \<noteq> []" and "ks' \<noteq> []" and "py_join ''.'' ks = py_join ''.'' ks'"
  shows "ks = ks'"
  using assms
proof (induction ks arbitrary: ks')
  case Nil
  then show ?case by simp
next
  case (Cons a as)
  from Cons.prems(4) obtain b bs where ks': "ks' = b # bs" by (cases ks') auto
  have a: "CHR ''.'' \<notin> set a" and b: "CHR ''.'' \<notin> set b"
    using Cons.prems(1,2) ks' by auto
  from Cons.prems(5) ks' have eq: "py_join ''.'' (a # as) = py_join ''.'' (b # bs)" by simp
  have "a = b"
    using py_join_head(1) [OF a, of as] py_join_head(1) [OF b, of bs] eq by simp
  have tails: "(if as = [] then [] else CHR ''.'' # py_join ''.'' as)
      = (if bs = [] then [] else CHR ''.'' # py_join ''.'' bs)"
    using py_join_head(2) [OF a, of as] py_join_head(2) [OF b, of bs] eq by simp
  show ?case
  proof (cases "as = []")
    case True
    with tails have "bs = []" by (auto split: if_splits)
    with True \<open>a = b\<close> ks' show ?thesis by simp
  next
    case False
    with tails have bs: "bs \<noteq> []" and j: "py_join ''.'' as = py_join ''.'' bs"
      by (auto split: if_splits)
    have "as = bs"
      using Cons.IH [of bs] Cons.prems(1,2) ks' False bs j by auto
    with \<open>a = b\<close> ks' show ?thesis by simp
  qed
qed

lemma collision_free_keys:
  "list_all dotless_key p \<Longrightarrow> map Key (keys_of p) = p
     \<and> list_all plain_key (keys_of p) \<and> (\<forall>k \<in> set (keys_of p). CHR ''.'' \<notin> set k)"
proof (induction p)
  case Nil
  show ?case by simp
next
  case (Cons e p)
  then show ?case by (cases e) auto
qed

lemma path_to_field_collision_free:
  assumes "collision_free p"
  shows "path_to_field (path_str p) = py_join ''.'' (keys_of p)"
proof -
  from assms have la: "list_all dotless_key p" and ne: "p \<noteq> []" and hd: "hd p \<noteq> Key ''raw_json''"
    by (simp_all add: collision_free_def)
  from collision_free_keys [OF la] have m: "map Key (keys_of p) = p"
    and pk: "list_all plain_key (keys_of p)" by simp_all
  from m ne have kne: "keys_of p \<noteq> []" by auto
  from m hd kne have "hd (keys_of p) \<noteq> ''raw_json''"
    by (metis hd_map path_elem.inject(1))
  with path_to_field_path_str [OF pk kne] show ?thesis by simp
qed

lemma path_to_field_inject:
  assumes "collision_free p" and "collision_free q"
    and "path_to_field (path_str p) = path_to_field (path_str q)"
  shows "p = q"
proof -
  from assms(1,2) have lp: "list_all dotless_key p" and lq: "list_all dotless_key q"
    and ne: "p \<noteq> []" "q \<noteq> []"
    by (simp_all add: collision_free_def)
  note kp = collision_free_keys [OF lp] and kq = collision_free_keys [OF lq]
  from kp ne(1) have np: "keys_of p \<noteq> []" by auto
  from kq ne(2) have nq: "keys_of q \<noteq> []" by auto
  from assms have "py_join ''.'' (keys_of p) = py_join ''.'' (keys_of q)"
    by (simp add: path_to_field_collision_free)
  with kp kq np nq have "keys_of p = keys_of q"
    by (intro py_join_inject) auto
  with kp kq show ?thesis by metis
qed

lemma path_to_field_wrapped:
  assumes "list_all dotless_key r" and "r \<noteq> []"
  shows "path_to_field (path_str (Key ''raw_json'' # r)) = py_join ''.'' (keys_of r)"
proof -
  from collision_free_keys [OF assms(1)] have m: "map Key (keys_of r) = r"
    and pk: "list_all plain_key (keys_of r)" by simp_all
  from m assms(2) have ne: "keys_of r \<noteq> []" by auto
  have "plain_key ''raw_json''" by (simp add: plain_key_def)
  with pk have "list_all plain_key (keys_of (Key ''raw_json'' # r))"
    and "keys_of (Key ''raw_json'' # r) \<noteq> []" by simp_all
  from path_to_field_path_str [OF this] ne show ?thesis by simp
qed

lemma path_to_field_wrapped_inject:
  assumes "list_all dotless_key r" and "r \<noteq> []" and "list_all dotless_key r'" and "r' \<noteq> []"
    and "path_to_field (path_str (Key ''raw_json'' # r))
           = path_to_field (path_str (Key ''raw_json'' # r'))"
  shows "r = r'"
proof -
  note k = collision_free_keys [OF assms(1)] and k' = collision_free_keys [OF assms(3)]
  from k assms(2) have n: "keys_of r \<noteq> []" by auto
  from k' assms(4) have n': "keys_of r' \<noteq> []" by auto
  from assms have "py_join ''.'' (keys_of r) = py_join ''.'' (keys_of r')"
    by (simp add: path_to_field_wrapped)
  with k k' n n' have "keys_of r = keys_of r'"
    by (intro py_join_inject) auto
  with k k' show ?thesis by metis
qed

text \<open>
  Claim C8, as the code has it.  Take a path with at least one text key, every text key
  non-empty and free of quotes and closing brackets.  \<^verbatim>\<open>path_to_field\<close> joins its text keys
  with a dot, after dropping a first key \<^verbatim>\<open>raw_json\<close>; list indices are left out, and the
  result is \<^verbatim>\<open>root\<close> when the wrapper key was the only key.  The function is deterministic.
  Two different paths that consist of such text keys only, none with a dot, format
  differently if neither starts with the wrapper key, and also if both start with it
  and go on.  A key with a closing
  bracket is not read back: its path stays in bracket notation.  The field of
  \<^verbatim>\<open>find_diff_1.py\<close> is no dotted name: below the wrapper the brackets of the key stay, and
  the text \<^verbatim>\<open>root\<close> is removed inside a key as well.
\<close>

theorem path_to_field_format:
  "(list_all plain_key (keys_of p) \<and> keys_of p \<noteq> [] \<longrightarrow>
      path_to_field (path_str p) =
        (if hd (keys_of p) = ''raw_json''
         then (if tl (keys_of p) = [] then ''root'' else py_join ''.'' (tl (keys_of p)))
         else py_join ''.'' (keys_of p)))
   \<and> (collision_free p \<and> collision_free q
        \<and> path_to_field (path_str p) = path_to_field (path_str q) \<longrightarrow> p = q)
   \<and> (list_all dotless_key r \<and> r \<noteq> [] \<and> list_all dotless_key r' \<and> r' \<noteq> []
        \<and> path_to_field (path_str (Key ''raw_json'' # r))
            = path_to_field (path_str (Key ''raw_json'' # r')) \<longrightarrow> r = r')
   \<and> path_to_field (path_str [Key ''a]b''])
        = ''['' @ [CHR 0x27] @ ''a]b'' @ [CHR 0x27] @ '']''
   \<and> field_of_path1 (path_str [Key ''raw_json'', Key ''a''])
        = ''['' @ [CHR 0x27] @ ''a'' @ [CHR 0x27] @ '']''
   \<and> field_of_path1 (path_str [Key ''root_cause''])
        = ''['' @ [CHR 0x27] @ ''_cause'' @ [CHR 0x27] @ '']''"
proof -
  have 4: "path_to_field (path_str [Key ''a]b''])
        = ''['' @ [CHR 0x27] @ ''a]b'' @ [CHR 0x27] @ '']''"
    by code_simp
  have 5: "field_of_path1 (path_str [Key ''raw_json'', Key ''a''])
        = ''['' @ [CHR 0x27] @ ''a'' @ [CHR 0x27] @ '']''"
    by code_simp
  have 6: "field_of_path1 (path_str [Key ''root_cause''])
        = ''['' @ [CHR 0x27] @ ''_cause'' @ [CHR 0x27] @ '']''"
    by code_simp
  from 4 5 6 show ?thesis
    using path_to_field_path_str [of p] path_to_field_inject [of p q]
      path_to_field_wrapped_inject [of r r']
    by blast
qed

text \<open>
  Three paths: a nested one through a list, the wrapper alone, and a top-level column;
  and two different columns, which format differently.
\<close>

theorem path_to_field_format_witness:
  "path_to_field (path_str [Key ''raw_json'', Key ''plcyNm'', Index 0, Key ''a'']) = ''plcyNm.a''
   \<and> path_to_field (path_str [Key ''raw_json'']) = ''root''
   \<and> path_to_field (path_str [Key ''status'']) = ''status''
   \<and> path_to_field (path_str [Key ''status'']) \<noteq> path_to_field (path_str [Key ''note''])"
proof -
  let ?p = "[Key ''raw_json'', Key ''plcyNm'', Index 0, Key ''a'']"
  have "list_all plain_key (keys_of ?p) \<and> keys_of ?p \<noteq> []"
    by (simp add: plain_key_def)
  then have "path_to_field (path_str ?p) =
        (if hd (keys_of ?p) = ''raw_json''
         then (if tl (keys_of ?p) = [] then ''root'' else py_join ''.'' (tl (keys_of ?p)))
         else py_join ''.'' (keys_of ?p))"
    using path_to_field_format [of ?p ?p] by blast
  then have 1: "path_to_field (path_str ?p) = ''plcyNm.a''" by simp
  let ?q = "[Key ''raw_json'']"
  have "list_all plain_key (keys_of ?q) \<and> keys_of ?q \<noteq> []"
    by (simp add: plain_key_def)
  then have "path_to_field (path_str ?q) =
        (if hd (keys_of ?q) = ''raw_json''
         then (if tl (keys_of ?q) = [] then ''root'' else py_join ''.'' (tl (keys_of ?q)))
         else py_join ''.'' (keys_of ?q))"
    using path_to_field_format [of ?q ?q] by blast
  then have 2: "path_to_field (path_str ?q) = ''root''" by simp
  let ?s = "[Key ''status'']"
  have "list_all plain_key (keys_of ?s) \<and> keys_of ?s \<noteq> []"
    by (simp add: plain_key_def)
  then have "path_to_field (path_str ?s) =
        (if hd (keys_of ?s) = ''raw_json''
         then (if tl (keys_of ?s) = [] then ''root'' else py_join ''.'' (tl (keys_of ?s)))
         else py_join ''.'' (keys_of ?s))"
    using path_to_field_format [of ?s ?s] by blast
  then have 3: "path_to_field (path_str ?s) = ''status''" by simp
  let ?n = "[Key ''note'']"
  have "collision_free ?s" and "collision_free ?n" and "?s \<noteq> ?n"
    by (simp_all add: collision_free_def plain_key_def)
  then have 4: "path_to_field (path_str ?s) \<noteq> path_to_field (path_str ?n)"
    using path_to_field_format [of ?s ?n] by blast
  from 1 2 3 4 show ?thesis by blast
qed

text \<open>
  Claim C8 as the specification states it fails: different paths collide.  A key below
  the wrapper formats like the top-level column of the same name, a key with a dot
  like two nested keys, and two elements of one list alike.
\<close>

theorem path_to_field_collision_counterexample:
  "path_to_field (path_str [Key ''raw_json'', Key ''lastMdfcnDt''])
     = path_to_field (path_str [Key ''lastMdfcnDt''])
   \<and> [Key ''raw_json'', Key ''lastMdfcnDt''] \<noteq> [Key ''lastMdfcnDt'']
   \<and> path_to_field (path_str [Key ''a.b'']) = path_to_field (path_str [Key ''a'', Key ''b''])
   \<and> [Key ''a.b''] \<noteq> [Key ''a'', Key ''b'']
   \<and> path_to_field (path_str [Key ''tags'', Index 0]) = path_to_field (path_str [Key ''tags'', Index 1])
   \<and> [Key ''tags'', Index 0] \<noteq> [Key ''tags'', Index 1]"
proof -
  have 1: "path_to_field (path_str [Key ''raw_json'', Key ''lastMdfcnDt''])
     = path_to_field (path_str [Key ''lastMdfcnDt''])"
    by code_simp
  have 2: "path_to_field (path_str [Key ''a.b'']) = path_to_field (path_str [Key ''a'', Key ''b''])"
    by code_simp
  have 3: "path_to_field (path_str [Key ''tags'', Index 0]) = path_to_field (path_str [Key ''tags'', Index 1])"
    by code_simp
  from 1 2 3 show ?thesis by simp
qed

section \<open>The diff report: properties\<close>

lemma values_changed_member:
  "(s, a, b) \<in> set (values_changed es) \<longleftrightarrow> (\<exists>p. ValuesChanged p a b \<in> set es \<and> s = path_str p)"
  by (induction es rule: values_changed.induct) auto

lemma diff_level_skip:
  "skip_this ex p \<Longrightarrow> diff_level iter ex p t1 t2 = []"
  by (simp add: diff_level.simps)

lemma diff_level_types:
  "\<not> skip_this ex p \<Longrightarrow> type_of t1 \<noteq> type_of t2 \<Longrightarrow>
     diff_level iter ex p t1 t2 = [TypeChanges p t1 t2]"
  by (simp add: diff_level.simps)

lemma diff_level_dict:
  "\<not> skip_this ex p \<Longrightarrow>
   diff_level iter ex p (PDict d1) (PDict d2) =
       [DictionaryItemAdded (p @ [Key k]).
          k \<leftarrow> dict_keys d2, map_of d1 k = None, \<not> skip_this ex (p @ [Key k])]
     @ [DictionaryItemRemoved (p @ [Key k]).
          k \<leftarrow> dict_keys d1, map_of d2 k = None, \<not> skip_this ex (p @ [Key k])]
     @ concat (map (\<lambda>k.
          case (map_of d1 k, map_of d2 k) of
            (Some v1, Some v2) \<Rightarrow> diff_level iter ex (p @ [Key k]) v1 v2
          | _ \<Rightarrow> []) (dict_keys d1))"
  by (subst diff_level.simps) simp

lemma diff_level_list:
  "\<not> skip_this ex p \<Longrightarrow>
   diff_level iter ex p (PList xs) (PList ys) = map (below p) (iter xs ys)"
  by (subst diff_level.simps) simp

lemma diff_level_scalar:
  "\<not> skip_this ex p \<Longrightarrow> type_of t1 = type_of t2 \<Longrightarrow> type_of t1 \<noteq> T_dict \<Longrightarrow>
   type_of t1 \<noteq> T_list \<Longrightarrow>
   diff_level iter ex p t1 t2 = (if t1 \<noteq> t2 then [ValuesChanged p t1 t2] else [])"
  by (subst diff_level.simps, cases t1; cases t2) simp_all

lemma diff_level_dict_member:
  assumes "\<not> skip_this ex p"
  shows "e \<in> set (diff_level iter ex p (PDict d1) (PDict d2)) \<longleftrightarrow>
     (\<exists>k. e = DictionaryItemAdded (p @ [Key k]) \<and> k \<in> set (dict_keys d2)
          \<and> map_of d1 k = None \<and> \<not> skip_this ex (p @ [Key k]))
   \<or> (\<exists>k. e = DictionaryItemRemoved (p @ [Key k]) \<and> k \<in> set (dict_keys d1)
          \<and> map_of d2 k = None \<and> \<not> skip_this ex (p @ [Key k]))
   \<or> (\<exists>k v1 v2. k \<in> set (dict_keys d1) \<and> map_of d1 k = Some v1 \<and> map_of d2 k = Some v2
          \<and> e \<in> set (diff_level iter ex (p @ [Key k]) v1 v2))"
  unfolding diff_level_dict [OF assms]
  by (auto split: option.splits)

lemma entry_path_below: "entry_path (below p e) = p @ entry_path e"
  by (cases e) simp_all

text \<open>
  Every entry is reported at a level that is not skipped, or below a sequence at such
  a level.
\<close>

lemma diff_level_entry_level:
  "e \<in> set (diff_level iter ex p t1 t2) \<Longrightarrow>
     \<exists>q r. entry_path e = q @ r \<and> prefix p q \<and> \<not> skip_this ex q
           \<and> (r \<noteq> [] \<longrightarrow> q \<noteq> [] \<or> type_of t1 = T_list)"
proof (induction iter ex p t1 t2 arbitrary: e rule: diff_level.induct)
  case (1 iter ex p t1 t2)
  note mem = "1.prems"
  show ?case
  proof (cases "skip_this ex p")
    case True
    with mem show ?thesis by (simp add: diff_level_skip)
  next
    case ns: False
    show ?thesis
    proof (cases "type_of t1 = type_of t2")
      case False
      with mem ns have "entry_path e = p @ []" by (simp add: diff_level_types)
      with ns show ?thesis by blast
    next
      case teq: True
      consider (dict) d1 d2 where "t1 = PDict d1" "t2 = PDict d2"
        | (list) xs ys where "t1 = PList xs" "t2 = PList ys"
        | (scalar) "type_of t1 \<noteq> T_dict" "type_of t1 \<noteq> T_list"
        using teq by (cases t1; cases t2) simp_all
      then show ?thesis
      proof cases
        case dict
        from mem dict have "e \<in> set (diff_level iter ex p (PDict d1) (PDict d2))" by simp
        then consider
            (added) k where "e = DictionaryItemAdded (p @ [Key k])" "\<not> skip_this ex (p @ [Key k])"
          | (removed) k where "e = DictionaryItemRemoved (p @ [Key k])" "\<not> skip_this ex (p @ [Key k])"
          | (deeper) k v1 v2 where "k \<in> set (dict_keys d1)" "map_of d1 k = Some v1"
              "map_of d2 k = Some v2" "e \<in> set (diff_level iter ex (p @ [Key k]) v1 v2)"
          using diff_level_dict_member [OF ns, of e iter d1 d2] by blast
        then show ?thesis
        proof cases
          case added
          then have "entry_path e = (p @ [Key k]) @ []" by simp
          with added(2) show ?thesis by (metis prefixI)
        next
          case removed
          then have "entry_path e = (p @ [Key k]) @ []" by simp
          with removed(2) show ?thesis by (metis prefixI)
        next
          case deeper
          have "\<exists>q r. entry_path e = q @ r \<and> prefix (p @ [Key k]) q \<and> \<not> skip_this ex q
                  \<and> (r \<noteq> [] \<longrightarrow> q \<noteq> [] \<or> type_of v1 = T_list)"
            using "1.IH" [OF ns _ refl dict(1) dict(2) deeper(1) refl deeper(2) deeper(3) deeper(4)]
              teq by simp
          then obtain q r where q: "entry_path e = q @ r" "prefix (p @ [Key k]) q" "\<not> skip_this ex q"
            by blast
          from q(2) have "prefix p q" and "q \<noteq> []"
            by (auto simp: prefix_def)
          with q show ?thesis by blast
        qed
      next
        case list
        with mem ns obtain e' where "e = below p e'"
          by (auto simp: diff_level_list)
        then have "entry_path e = p @ entry_path e'" by (simp add: entry_path_below)
        with ns list show ?thesis by auto
      next
        case scalar
        with mem ns teq have "entry_path e = p @ []"
          by (auto simp: diff_level_scalar split: if_splits)
        with ns show ?thesis by blast
      qed
    qed
  qed
qed

lemma diff_level_prefix:
  "e \<in> set (diff_level iter ex p t1 t2) \<Longrightarrow> prefix p (entry_path e)"
  using diff_level_entry_level [of e iter ex p t1 t2] by (auto simp: prefix_def)

lemma elem_str_last: "elem_str x \<noteq> [] \<and> last (elem_str x) = CHR '']''"
  by (cases x) simp_all

lemma path_str_last: "q \<noteq> [] \<Longrightarrow> last (path_str q) = CHR '']''"
proof (induction q rule: rev_induct)
  case Nil
  then show ?case by simp
next
  case (snoc x xs)
  have "path_str (xs @ [x]) = path_str xs @ elem_str x" by (simp add: path_str_def)
  then show ?case using elem_str_last [of x] by simp
qed

lemma path_str_append: "path_str (q @ r) = path_str q @ concat (map elem_str r)"
  by (simp add: path_str_def)

lemma concat_elem_str_nonempty: "r \<noteq> [] \<Longrightarrow> concat (map elem_str r) \<noteq> []"
  using elem_str_last by (cases r) auto

lemma path_str_inner_bracket:
  assumes "q \<noteq> []" and "r \<noteq> []"
  shows "CHR '']'' \<in> set (butlast (path_str (q @ r)))"
proof -
  have "path_str q \<noteq> []" by (simp add: path_str_def)
  with path_str_last [OF assms(1)] have "CHR '']'' \<in> set (path_str q)"
    by (metis last_in_set)
  moreover have "butlast (path_str (q @ r)) = path_str q @ butlast (concat (map elem_str r))"
    using concat_elem_str_nonempty [OF assms(2)]
    by (simp add: path_str_append butlast_append del: concat_eq_Nil_conv)
  ultimately show ?thesis by simp
qed

lemma exclude_paths_brackets: "\<forall>x \<in> set exclude_paths. CHR '']'' \<notin> set (butlast x)"
  by (simp add: exclude_paths_def)

lemma root_not_excluded: "\<not> skip_this exclude_paths []"
  by (simp add: skip_this_def path_str_def exclude_paths_def)

lemma DeepDiff_entry_not_excluded:
  assumes "e \<in> set (DeepDiff iter base other)"
  shows "path_str (entry_path e) \<notin> set exclude_paths"
proof -
  from assms obtain q r where q: "entry_path e = q @ r" "\<not> skip_this exclude_paths q"
      "r \<noteq> [] \<longrightarrow> q \<noteq> []"
    unfolding DeepDiff_def using diff_level_entry_level [of e iter exclude_paths "[]" "PDict base" "PDict other"]
    by auto
  show ?thesis
  proof (cases "r = []")
    case True
    with q show ?thesis by (simp add: skip_this_def)
  next
    case False
    with q have "CHR '']'' \<in> set (butlast (path_str (entry_path e)))"
      by (simp add: path_str_inner_bracket)
    with exclude_paths_brackets show ?thesis by blast
  qed
qed

lemma dict_keys_member: "map_of d k = Some v \<Longrightarrow> k \<in> set (dict_keys d)"
  by (auto simp: dict_keys_def dest: map_of_SomeD intro: rev_image_eqI)


lemma compare_group2_pair:
  "compare_group2 py_str differ pid [base, other] [] =
     rows_of_diff pid 2 (pick_change_dt py_str base) (pick_change_dt py_str other) (differ base other)"
  by (simp add: compare_group2_def)

lemma DeepDiff_single:
  "DeepDiff iter [(k, v1)] [(k, v2)] = diff_level iter exclude_paths [Key k] v1 v2"
  by (simp add: DeepDiff_def diff_level_dict [OF root_not_excluded] dict_keys_def)

lemma DeepDiff_single_removed:
  "DeepDiff iter [(k, v1)] [] =
     (if skip_this exclude_paths [Key k] then [] else [DictionaryItemRemoved [Key k]])"
  by (simp add: DeepDiff_def diff_level_dict [OF root_not_excluded] dict_keys_def)

lemma DeepDiff_single_added:
  "DeepDiff iter [] [(k, v2)] =
     (if skip_this exclude_paths [Key k] then [] else [DictionaryItemAdded [Key k]])"
  by (simp add: DeepDiff_def diff_level_dict [OF root_not_excluded] dict_keys_def)

lemma values_changed_type_changes:
  "type_of v1 \<noteq> type_of v2 \<Longrightarrow> values_changed (diff_level iter ex p v1 v2) = []"
  by (cases "skip_this ex p") (simp_all add: diff_level_skip diff_level_types)

text \<open>
  Claim C2, as the code has it.  No \<^verbatim>\<open>values_changed\<close> entry of a comparison, and so no
  emitted row, is located at one of the five excluded top-level paths, whatever the
  two snapshots hold there.  The exclusion is by the path, not by the formatted field
  name: see the example after the next.
\<close>

theorem excluded_paths_never_reported:
  assumes "(path, old, new) \<in> set (values_changed (DeepDiff iter base other))"
  shows "path \<notin> set exclude_paths"
proof -
  from assms obtain p where "ValuesChanged p old new \<in> set (DeepDiff iter base other)"
    and "path = path_str p"
    unfolding values_changed_member by blast
  with DeepDiff_entry_not_excluded [of "ValuesChanged p old new" iter base other]
  show ?thesis by simp
qed

text \<open>
  The scenario of the specification: the status changes from open to closed and
  \<^verbatim>\<open>lastMdfcnDt\<close> changes too.  The one entry is the status, its path is not excluded, and
  the one row carries the two resolved timestamps.
\<close>

theorem excluded_paths_never_reported_witness:
  "(path_str [Key ''status''], PStr ''open'', PStr ''closed'')
     \<in> set (values_changed (DeepDiff example_iter
          [(''status'', PStr ''open''), (''note'', PStr ''a''), (''lastMdfcnDt'', PStr ''2024-01-01'')]
          [(''status'', PStr ''closed''), (''note'', PStr ''a''), (''lastMdfcnDt'', PStr ''2024-02-01'')]))
   \<and> path_str [Key ''status''] \<notin> set exclude_paths
   \<and> compare_group2 example_str (DeepDiff example_iter) (PStr ''P001'')
        [[(''status'', PStr ''open''), (''note'', PStr ''a''), (''lastMdfcnDt'', PStr ''2024-01-01'')],
         [(''status'', PStr ''closed''), (''note'', PStr ''a''), (''lastMdfcnDt'', PStr ''2024-02-01'')]] []
      = [\<lparr>policy_id = PStr ''P001'', compare_seq = 2, field = ''status'',
           old_value = PStr ''open'', new_value = PStr ''closed'',
           base_change_dt = Some ''2024-01-01'', change_dt = Some ''2024-02-01''\<rparr>]"
proof -
  let ?b = "[(''status'', PStr ''open''), (''note'', PStr ''a''), (''lastMdfcnDt'', PStr ''2024-01-01'')]"
  let ?o = "[(''status'', PStr ''closed''), (''note'', PStr ''a''), (''lastMdfcnDt'', PStr ''2024-02-01'')]"
  have v: "values_changed (DeepDiff example_iter ?b ?o)
             = [(path_str [Key ''status''], PStr ''open'', PStr ''closed'')]"
    by code_simp
  then have h: "(path_str [Key ''status''], PStr ''open'', PStr ''closed'')
     \<in> set (values_changed (DeepDiff example_iter ?b ?o))"
    by simp
  have n: "path_str [Key ''status''] \<notin> set exclude_paths"
    by (rule excluded_paths_never_reported [OF h])
  have r: "compare_group2 example_str (DeepDiff example_iter) (PStr ''P001'') [?b, ?o] []
      = [\<lparr>policy_id = PStr ''P001'', compare_seq = 2, field = ''status'',
           old_value = PStr ''open'', new_value = PStr ''closed'',
           base_change_dt = Some ''2024-01-01'', change_dt = Some ''2024-02-01''\<rparr>]"
    by code_simp
  from h n r show ?thesis by blast
qed

text \<open>
  Claim C2 as the specification states it fails: \<^verbatim>\<open>lastMdfcnDt\<close> below the \<^verbatim>\<open>raw_json\<close>
  wrapper is not excluded, and its row carries the field \<^verbatim>\<open>lastMdfcnDt\<close>, the formatted
  form of the first excluded path.
\<close>

theorem excluded_name_below_wrapper_counterexample:
  "compare_group2 example_str (DeepDiff example_iter) (PStr ''P001'')
     [[(''lastMdfcnDt'', PStr ''2024-01-01''),
       (''raw_json'', PDict [(''lastMdfcnDt'', PStr ''2024-01-01'')])],
      [(''lastMdfcnDt'', PStr ''2024-02-01''),
       (''raw_json'', PDict [(''lastMdfcnDt'', PStr ''2024-02-01'')])]] []
   = [\<lparr>policy_id = PStr ''P001'', compare_seq = 2, field = ''lastMdfcnDt'',
        old_value = PStr ''2024-01-01'', new_value = PStr ''2024-02-01'',
        base_change_dt = Some ''2024-01-01'', change_dt = Some ''2024-02-01''\<rparr>]
   \<and> path_to_field (hd exclude_paths) = ''lastMdfcnDt''"
proof -
  have 1: "compare_group2 example_str (DeepDiff example_iter) (PStr ''P001'')
     [[(''lastMdfcnDt'', PStr ''2024-01-01''),
       (''raw_json'', PDict [(''lastMdfcnDt'', PStr ''2024-01-01'')])],
      [(''lastMdfcnDt'', PStr ''2024-02-01''),
       (''raw_json'', PDict [(''lastMdfcnDt'', PStr ''2024-02-01'')])]] []
   = [\<lparr>policy_id = PStr ''P001'', compare_seq = 2, field = ''lastMdfcnDt'',
        old_value = PStr ''2024-01-01'', new_value = PStr ''2024-02-01'',
        base_change_dt = Some ''2024-01-01'', change_dt = Some ''2024-02-01''\<rparr>]"
    by code_simp
  have 2: "path_to_field (hd exclude_paths) = ''lastMdfcnDt''"
    by code_simp
  from 1 2 show ?thesis by blast
qed












text \<open>
  Claim C5, as the code has it.  At a key where the two mappings hold values of
  different types, the diff files one \<^verbatim>\<open>type_changes\<close> entry with the two raw values
  (nothing when the path is excluded) and no \<^verbatim>\<open>values_changed\<close> entry.  The scripts read
  \<^verbatim>\<open>values_changed\<close> only, so a snapshot pair that differs in the type of a field alone
  yields no row.  Every function involved is total: nothing is raised.
\<close>

theorem type_mismatch_not_surfaced:
  assumes "map_of d1 k = Some v1" and "map_of d2 k = Some v2"
    and "type_of v1 \<noteq> type_of v2" and "\<not> skip_this ex p"
  shows "(if skip_this ex (p @ [Key k])
          then \<forall>e \<in> set (diff_level iter ex p (PDict d1) (PDict d2)). entry_path e \<noteq> p @ [Key k]
          else TypeChanges (p @ [Key k]) v1 v2 \<in> set (diff_level iter ex p (PDict d1) (PDict d2)))
       \<and> (\<forall>old new.
            ValuesChanged (p @ [Key k]) old new \<notin> set (diff_level iter ex p (PDict d1) (PDict d2)))
       \<and> compare_group2 py_str (DeepDiff iter) pid [[(k, v1)], [(k, v2)]] [] = []"
proof -
  let ?report = "diff_level iter ex p (PDict d1) (PDict d2)"
  have level: "e \<in> set (diff_level iter ex (p @ [Key k]) v1 v2)"
    if "e \<in> set ?report" and "entry_path e = p @ [Key k]" for e
  proof -
    from that(1) consider
        (added) k' where "e = DictionaryItemAdded (p @ [Key k'])" "map_of d1 k' = None"
      | (removed) k' where "e = DictionaryItemRemoved (p @ [Key k'])" "map_of d2 k' = None"
      | (deeper) k' v1' v2' where "map_of d1 k' = Some v1'" "map_of d2 k' = Some v2'"
          "e \<in> set (diff_level iter ex (p @ [Key k']) v1' v2')"
      unfolding diff_level_dict_member [OF assms(4)] by blast
    then show ?thesis
    proof cases
      case added
      with that(2) assms(1) show ?thesis by simp
    next
      case removed
      with that(2) assms(2) show ?thesis by simp
    next
      case deeper
      from diff_level_prefix [OF deeper(3)] that(2) have "k' = k" by simp
      with deeper assms(1,2) show ?thesis by simp
    qed
  qed
  have 1: "if skip_this ex (p @ [Key k])
          then \<forall>e \<in> set ?report. entry_path e \<noteq> p @ [Key k]
          else TypeChanges (p @ [Key k]) v1 v2 \<in> set ?report"
  proof (cases "skip_this ex (p @ [Key k])")
    case True
    then show ?thesis using level by (auto simp: diff_level_skip)
  next
    case False
    then have "TypeChanges (p @ [Key k]) v1 v2 \<in> set (diff_level iter ex (p @ [Key k]) v1 v2)"
      using assms(3) by (simp add: diff_level_types)
    then have "TypeChanges (p @ [Key k]) v1 v2 \<in> set ?report"
      unfolding diff_level_dict_member [OF assms(4)]
      using assms(1,2) dict_keys_member [OF assms(1)] by auto
    with False show ?thesis by simp
  qed
  have 2: "\<forall>old new. ValuesChanged (p @ [Key k]) old new \<notin> set ?report"
  proof (intro allI notI)
    fix old new
    assume "ValuesChanged (p @ [Key k]) old new \<in> set ?report"
    then have "ValuesChanged (p @ [Key k]) old new \<in> set (diff_level iter ex (p @ [Key k]) v1 v2)"
      by (rule level) simp
    with assms(3) show False
      by (cases "skip_this ex (p @ [Key k])") (simp_all add: diff_level_skip diff_level_types)
  qed
  have 3: "compare_group2 py_str (DeepDiff iter) pid [[(k, v1)], [(k, v2)]] [] = []"
    using assms(3)
    by (simp add: compare_group2_pair rows_of_diff_def DeepDiff_single values_changed_type_changes)
  from 1 2 3 show ?thesis by blast
qed

text \<open>The number 1 against the text 1, beside a field that changes its text.\<close>

theorem type_mismatch_not_surfaced_witness:
  "TypeChanges [Key ''a''] (PInt 1) (PStr ''1'')
     \<in> set (DeepDiff example_iter [(''a'', PInt 1), (''b'', PStr ''u'')]
                                   [(''a'', PStr ''1''), (''b'', PStr ''v'')])
   \<and> ValuesChanged [Key ''a''] (PInt 1) (PStr ''1'')
     \<notin> set (DeepDiff example_iter [(''a'', PInt 1), (''b'', PStr ''u'')]
                                   [(''a'', PStr ''1''), (''b'', PStr ''v'')])
   \<and> compare_group2 example_str (DeepDiff example_iter) (PStr ''P001'')
        [[(''a'', PInt 1)], [(''a'', PStr ''1'')]] [] = []"
proof -
  let ?b = "[(''a'', PInt 1), (''b'', PStr ''u'')]" and ?o = "[(''a'', PStr ''1''), (''b'', PStr ''v'')]"
  have a: "map_of ?b ''a'' = Some (PInt 1)" "map_of ?o ''a'' = Some (PStr ''1'')"
    "type_of (PInt 1) \<noteq> type_of (PStr ''1'')"
    by simp_all
  have ns: "\<not> skip_this exclude_paths ([] @ [Key ''a''])"
    by (simp add: skip_this_def path_str_def exclude_paths_def)
  note t = type_mismatch_not_surfaced [OF a root_not_excluded, of example_iter example_str "PStr ''P001''"]
  from t ns have 1: "TypeChanges [Key ''a''] (PInt 1) (PStr ''1'') \<in> set (DeepDiff example_iter ?b ?o)"
    by (simp add: DeepDiff_def)
  from t have 2: "ValuesChanged [Key ''a''] (PInt 1) (PStr ''1'') \<notin> set (DeepDiff example_iter ?b ?o)"
    by (simp add: DeepDiff_def)
  from t have 3: "compare_group2 example_str (DeepDiff example_iter) (PStr ''P001'')
        [[(''a'', PInt 1)], [(''a'', PStr ''1'')]] [] = []"
    by blast
  from 1 2 3 show ?thesis by blast
qed

text \<open>
  Claim C5 as the specification states it fails: the number 1 against the text 1, and
  a text against a mapping, are reported as type changes and yield no row.
\<close>

theorem type_mismatch_counterexample:
  "compare_group2 example_str (DeepDiff example_iter) (PStr ''P001'')
     [[(''a'', PInt 1)], [(''a'', PStr ''1'')]] [] = []
   \<and> DeepDiff example_iter [(''a'', PInt 1)] [(''a'', PStr ''1'')]
       = [TypeChanges [Key ''a''] (PInt 1) (PStr ''1'')]
   \<and> compare_group2 example_str (DeepDiff example_iter) (PStr ''P001'')
     [[(''a'', PStr ''x'')], [(''a'', PDict [(''b'', PStr ''x'')])]] [] = []"
proof -
  have 1: "compare_group2 example_str (DeepDiff example_iter) (PStr ''P001'')
     [[(''a'', PInt 1)], [(''a'', PStr ''1'')]] [] = []"
    by code_simp
  have 2: "DeepDiff example_iter [(''a'', PInt 1)] [(''a'', PStr ''1'')]
       = [TypeChanges [Key ''a''] (PInt 1) (PStr ''1'')]"
    by code_simp
  have 3: "compare_group2 example_str (DeepDiff example_iter) (PStr ''P001'')
     [[(''a'', PStr ''x'')], [(''a'', PDict [(''b'', PStr ''x'')])]] [] = []"
    by code_simp
  from 1 2 3 show ?thesis by blast
qed

text \<open>
  Claim C6, as the code has it.  At a key that is missing or \<^verbatim>\<open>None\<close> on one side and
  missing, \<^verbatim>\<open>None\<close> or a text on the other, the diff has no \<^verbatim>\<open>values_changed\<close> entry, in
  either direction.  So no row is emitted between a null and a missing field, and none
  either when one of them is compared with the text: the same outcome as comparing
  the text with itself.
\<close>

theorem null_and_missing_not_surfaced:
  "(map_of d1 k = None \<or> map_of d1 k = Some PNone \<longrightarrow>
      map_of d2 k = None \<or> map_of d2 k = Some PNone \<or> map_of d2 k = Some (PStr x) \<longrightarrow>
        ValuesChanged (p @ [Key k]) old new \<notin> set (diff_level iter ex p (PDict d1) (PDict d2))
      \<and> ValuesChanged (p @ [Key k]) old new \<notin> set (diff_level iter ex p (PDict d2) (PDict d1)))
   \<and> compare_group2 py_str (DeepDiff iter) pid [[(k, PNone)], []] [] = []
   \<and> compare_group2 py_str (DeepDiff iter) pid [[], [(k, PNone)]] [] = []
   \<and> compare_group2 py_str (DeepDiff iter) pid [[(k, PNone)], [(k, PStr x)]] [] = []
   \<and> compare_group2 py_str (DeepDiff iter) pid [[], [(k, PStr x)]] [] = []
   \<and> compare_group2 py_str (DeepDiff iter) pid [[(k, PStr x)], [(k, PStr x)]] [] = []"
proof -
  have gen: "ValuesChanged (p @ [Key k]) old new \<notin> set (diff_level iter ex p (PDict a) (PDict b))"
    if a: "map_of a k = None \<or> map_of a k = Some u" and b: "map_of b k = None \<or> map_of b k = Some v"
      and uv: "u = PNone \<and> (v = PNone \<or> v = PStr x) \<or> v = PNone \<and> (u = PNone \<or> u = PStr x)"
    for a b u v
  proof (cases "skip_this ex p")
    case True
    then show ?thesis by (simp add: diff_level_skip)
  next
    case ns: False
    show ?thesis
    proof
      assume "ValuesChanged (p @ [Key k]) old new \<in> set (diff_level iter ex p (PDict a) (PDict b))"
      then obtain k' v1 v2 where k': "map_of a k' = Some v1" "map_of b k' = Some v2"
        "ValuesChanged (p @ [Key k]) old new \<in> set (diff_level iter ex (p @ [Key k']) v1 v2)"
        unfolding diff_level_dict_member [OF ns] by auto
      from diff_level_prefix [OF k'(3)] have "k' = k" by simp
      with k' a b have v: "v1 = u" "v2 = v"
        and m: "ValuesChanged (p @ [Key k]) old new \<in> set (diff_level iter ex (p @ [Key k]) u v)"
        by auto
      show False
      proof (cases "skip_this ex (p @ [Key k])")
        case True
        with m show ?thesis by (simp add: diff_level_skip)
      next
        case False
        from uv consider "u = PNone" "v = PNone" | "type_of u \<noteq> type_of v"
          by auto
        then show ?thesis
        proof cases
          case 1
          with m False show ?thesis by (simp add: diff_level_scalar)
        next
          case 2
          with m False show ?thesis by (simp add: diff_level_types)
        qed
      qed
    qed
  qed
  have 1: "map_of d1 k = None \<or> map_of d1 k = Some PNone \<longrightarrow>
      map_of d2 k = None \<or> map_of d2 k = Some PNone \<or> map_of d2 k = Some (PStr x) \<longrightarrow>
        ValuesChanged (p @ [Key k]) old new \<notin> set (diff_level iter ex p (PDict d1) (PDict d2))
      \<and> ValuesChanged (p @ [Key k]) old new \<notin> set (diff_level iter ex p (PDict d2) (PDict d1))"
  proof (intro impI)
    assume a: "map_of d1 k = None \<or> map_of d1 k = Some PNone"
      and b: "map_of d2 k = None \<or> map_of d2 k = Some PNone \<or> map_of d2 k = Some (PStr x)"
    from b obtain v where v: "map_of d2 k = None \<or> map_of d2 k = Some v" "v = PNone \<or> v = PStr x"
      by blast
    from a v show "ValuesChanged (p @ [Key k]) old new \<notin> set (diff_level iter ex p (PDict d1) (PDict d2))
      \<and> ValuesChanged (p @ [Key k]) old new \<notin> set (diff_level iter ex p (PDict d2) (PDict d1))"
      using gen [of d1 PNone d2 v] gen [of d2 v d1 PNone] by blast
  qed
  have 2: "compare_group2 py_str (DeepDiff iter) pid [[(k, PNone)], []] [] = []"
    by (simp add: compare_group2_pair rows_of_diff_def DeepDiff_single_removed)
  have 3: "compare_group2 py_str (DeepDiff iter) pid [[], [(k, PNone)]] [] = []"
    by (simp add: compare_group2_pair rows_of_diff_def DeepDiff_single_added)
  have 4: "compare_group2 py_str (DeepDiff iter) pid [[(k, PNone)], [(k, PStr x)]] [] = []"
    by (simp add: compare_group2_pair rows_of_diff_def DeepDiff_single values_changed_type_changes)
  have 5: "compare_group2 py_str (DeepDiff iter) pid [[], [(k, PStr x)]] [] = []"
    by (simp add: compare_group2_pair rows_of_diff_def DeepDiff_single_added)
  have 6: "compare_group2 py_str (DeepDiff iter) pid [[(k, PStr x)], [(k, PStr x)]] [] = []"
    by (cases "skip_this exclude_paths [Key k]")
       (simp_all add: compare_group2_pair rows_of_diff_def DeepDiff_single diff_level_skip
          diff_level_scalar)
  from 1 2 3 4 5 6 show ?thesis by blast
qed

text \<open>A null field against a missing one and against a text, alone and beside another field.\<close>

theorem null_and_missing_not_surfaced_witness:
  "compare_group2 example_str (DeepDiff example_iter) (PStr ''P001'')
     [[(''f'', PNone)], []] [] = []
   \<and> compare_group2 example_str (DeepDiff example_iter) (PStr ''P001'')
     [[(''f'', PNone)], [(''f'', PStr ''x'')]] [] = []
   \<and> ValuesChanged [Key ''f''] PNone (PStr ''x'')
       \<notin> set (DeepDiff example_iter [(''f'', PNone), (''g'', PInt 1)]
                                     [(''f'', PStr ''x''), (''g'', PInt 2)])"
proof -
  let ?b = "[(''f'', PNone), (''g'', PInt 1)]" and ?o = "[(''f'', PStr ''x''), (''g'', PInt 2)]"
  note t = null_and_missing_not_surfaced
    [of ?b "''f''" ?o "''x''" "[]" PNone "PStr ''x''" example_iter exclude_paths example_str "PStr ''P001''"]
  from t have 1: "compare_group2 example_str (DeepDiff example_iter) (PStr ''P001'')
     [[(''f'', PNone)], []] [] = []"
    by blast
  from t have 2: "compare_group2 example_str (DeepDiff example_iter) (PStr ''P001'')
     [[(''f'', PNone)], [(''f'', PStr ''x'')]] [] = []"
    by blast
  have "map_of ?b ''f'' = None \<or> map_of ?b ''f'' = Some PNone"
    and "map_of ?o ''f'' = None \<or> map_of ?o ''f'' = Some PNone \<or> map_of ?o ''f'' = Some (PStr ''x'')"
    by simp_all
  with t have "ValuesChanged ([] @ [Key ''f'']) PNone (PStr ''x'')
      \<notin> set (diff_level example_iter exclude_paths [] (PDict ?b) (PDict ?o))"
    by blast
  then have 3: "ValuesChanged [Key ''f''] PNone (PStr ''x'') \<notin> set (DeepDiff example_iter ?b ?o)"
    by (simp add: DeepDiff_def)
  from 1 2 3 show ?thesis by blast
qed

text \<open>
  Claim C6 as the specification states it fails: a null field and a missing field
  compared with the text give the rows of the text compared with itself, which are
  none.  The report of the diff does tell the three apart (a removed item, a type
  change, an added item), but the scripts read none of these parts.
\<close>

theorem null_missing_text_counterexample:
  "compare_group2 example_str (DeepDiff example_iter) (PStr ''P001'')
     [[(''f'', PNone)], [(''f'', PStr ''x'')]] []
   = compare_group2 example_str (DeepDiff example_iter) (PStr ''P001'')
     [[(''f'', PStr ''x'')], [(''f'', PStr ''x'')]] []
   \<and> compare_group2 example_str (DeepDiff example_iter) (PStr ''P001'')
     [[], [(''f'', PStr ''x'')]] []
   = compare_group2 example_str (DeepDiff example_iter) (PStr ''P001'')
     [[(''f'', PStr ''x'')], [(''f'', PStr ''x'')]] []
   \<and> DeepDiff example_iter [(''f'', PNone)] [] = [DictionaryItemRemoved [Key ''f'']]
   \<and> DeepDiff example_iter [(''f'', PNone)] [(''f'', PStr ''x'')]
       = [TypeChanges [Key ''f''] PNone (PStr ''x'')]
   \<and> DeepDiff example_iter [] [(''f'', PStr ''x'')] = [DictionaryItemAdded [Key ''f'']]"
proof -
  have 1: "compare_group2 example_str (DeepDiff example_iter) (PStr ''P001'')
     [[(''f'', PNone)], [(''f'', PStr ''x'')]] [] = []"
    by code_simp
  have 2: "compare_group2 example_str (DeepDiff example_iter) (PStr ''P001'')
     [[(''f'', PStr ''x'')], [(''f'', PStr ''x'')]] [] = []"
    by code_simp
  have 3: "compare_group2 example_str (DeepDiff example_iter) (PStr ''P001'')
     [[], [(''f'', PStr ''x'')]] [] = []"
    by code_simp
  have 4: "DeepDiff example_iter [(''f'', PNone)] [] = [DictionaryItemRemoved [Key ''f'']]"
    by code_simp
  have 5: "DeepDiff example_iter [(''f'', PNone)] [(''f'', PStr ''x'')]
       = [TypeChanges [Key ''f''] PNone (PStr ''x'')]"
    by code_simp
  have 6: "DeepDiff example_iter [] [(''f'', PStr ''x'')] = [DictionaryItemAdded [Key ''f'']]"
    by code_simp
  from 1 2 3 4 5 6 show ?thesis by simp
qed

end
